theory Spec2Isabelle
  imports Complex_Main "HOL-Library.Word"
begin

unbundle bit_operations_syntax

section \<open>The Baofeng BF-T1 driver (chirp/drivers/bf\_t1.py)\<close>

text \<open>
  The driver has two halves: the clone protocol spoken over a serial line, and the codec
  that reads and writes channel and settings records inside a 2048-byte memory image.
  Both are embedded here function by function. Python names that start with an
  underscore lose it (\<open>_recv\<close> is \<open>recv\<close>).
\<close>

subsection \<open>Constants\<close>

type_synonym byte = "8 word"

definition MEM_SIZE :: nat where "MEM_SIZE = 2048"
definition BLOCK_SIZE :: nat where "BLOCK_SIZE = 16"

definition ACK_CMD :: "byte list" where "ACK_CMD = [0x06]"

text \<open>\<open>b"\x05PROGRAM"\<close> and \<open>b" BF9100S"\<close>.\<close>

definition BFT1_magic :: "byte list" where
  "BFT1_magic = [0x05, 0x50, 0x52, 0x4F, 0x47, 0x52, 0x41, 0x4D]"


subsection \<open>Errors\<close>

text \<open>
  Every \<open>raise\<close> of the driver is a value. A \<open>RadioError\<close> carries which message it
  is; messages formatted with a block address or a tone keep that number as an argument.
\<close>

datatype radio_msg =
    Unknown_error_cleaning
  | Error_reading_data
  | Wrong_block_length_short nat
  | Wrong_block_length_long nat
  | Invalid_header nat
  | Did_not_enter_clone_mode
  | Odd_identification_block
  | Identification_failed
  | Handshake_failed
  | No_ACK_writing_block nat
  | Bad_ACK_writing_block nat
  | Tone_not_supported nat
  | Digital_tone_not_supported nat

datatype error =
    RadioError radio_msg
  | InvalidDataError
  | ValueError
  | IndexError
  | KeyError
  | AttributeError
  | TypeError
  | StructError

subsection \<open>The serial pipe\<close>

text \<open>
  \<open>radio.pipe\<close> is the serial port, an external collaborator. Its model is a script:
  \<open>rx\<close> lists the bursts of bytes the device will deliver, one burst being what arrives
  before a read times out, and \<open>tx\<close> logs every write, oldest first. A read of \<open>n\<close>
  bytes returns at most \<open>n\<close> bytes of the first burst and leaves the rest of that burst
  for the next read; an empty burst, or no burst at all, is a read that times out with no
  data. Reads and writes of the model never raise.
\<close>

record pipe =
  rx :: "byte list list"
  tx :: "byte list list"

definition pipe_read :: "nat \<Rightarrow> pipe \<Rightarrow> byte list \<times> pipe" where
  "pipe_read n p =
     (case rx p of
        [] \<Rightarrow> ([], p)
      | b # bs \<Rightarrow>
          if length b \<le> n then (b, p\<lparr>rx := bs\<rparr>)
          else (take n b, p\<lparr>rx := drop n b # bs\<rparr>))"

definition pipe_write :: "byte list \<Rightarrow> pipe \<Rightarrow> pipe" where
  "pipe_write d p = p\<lparr>tx := tx p @ [d]\<rparr>"

subsection \<open>Raw transfers and frames\<close>

text \<open>
  \<open>_clean_buffer\<close>: the loop reads 100 bytes at a time until a read comes back empty,
  and raises once more than 101 bytes were drained. The \<open>except Exception\<close> around the
  loop turns that error into "Unknown error cleaning the serial buffer".
\<close>

function clean_loop :: "nat \<Rightarrow> pipe \<Rightarrow> (error + unit) \<times> pipe" where
  "clean_loop datacount p =
     (let (dump, p') = pipe_read 100 p;
          datacount' = datacount + length dump
      in if datacount' > 101 then (Inl (RadioError Unknown_error_cleaning), p')
         else if length dump > 0 then clean_loop datacount' p'
         else (Inr (), p'))"
  by pat_completeness auto
termination
  by (relation "measure (\<lambda>(datacount, p). 102 - datacount)")
    (auto simp flip: length_greater_0_conv)

declare clean_loop.simps [simp del]

definition clean_buffer :: "pipe \<Rightarrow> (error + unit) \<times> pipe" where
  "clean_buffer p = clean_loop 0 p"

text \<open>
  \<open>_rawrecv\<close>: \<open>amount = 0\<close> is \<open>pipe.read()\<close>, a read of one byte. An empty result
  raises inside the \<open>try\<close>, and the bare \<open>except\<close> replaces that error by
  "Error reading data from radio".
\<close>

definition rawrecv :: "nat \<Rightarrow> pipe \<Rightarrow> (error + byte list) \<times> pipe" where
  "rawrecv amount p =
     (let (data, p') = (if amount = 0 then pipe_read 1 p else pipe_read amount p)
      in if length data = 0 then (Inl (RadioError Error_reading_data), p')
         else (Inr data, p'))"

definition send :: "byte list \<Rightarrow> pipe \<Rightarrow> pipe" where
  "send data p = pipe_write data p"

text \<open>
  \<open>_make_frame\<close>: \<open>struct.pack(">BHB", ord(cmd), addr, BLOCK_SIZE)\<close> raises
  \<open>struct.error\<close> for an address that does not fit 16 bits.
\<close>

definition make_frame :: "byte \<Rightarrow> nat \<Rightarrow> byte list \<Rightarrow> error + byte list" where
  "make_frame cmd addr data =
     (if addr > 65535 then Inl StructError
      else let frame = [cmd, of_nat (addr div 256), of_nat (addr mod 256), of_nat BLOCK_SIZE]
           in if length data \<noteq> 0 then Inr (frame @ data) else Inr frame)"

text \<open>\<open>_recv\<close>: one block of 4 header bytes and 16 data bytes.\<close>

definition recv :: "nat \<Rightarrow> pipe \<Rightarrow> (error + byte list) \<times> pipe" where
  "recv addr p =
     (case rawrecv (BLOCK_SIZE + 4) p of
        (Inl e, p') \<Rightarrow> (Inl e, p')
      | (Inr block, p') \<Rightarrow>
          if length block < BLOCK_SIZE + 4
            then (Inl (RadioError (Wrong_block_length_short addr)), p')
          else if length block > BLOCK_SIZE + 4
            then (Inl (RadioError (Wrong_block_length_long addr)), p')
          else
            let c = block ! 0;
                a = 256 * unat (block ! 1) + unat (block ! 2);
                l = unat (block ! 3)
            in if c \<noteq> 0x57 \<or> a \<noteq> addr \<or> l \<noteq> BLOCK_SIZE
                 then (Inl (RadioError (Invalid_header addr)), p')
               else (Inr (drop 4 block), p'))"

subsection \<open>Clone mode, identification, download and upload\<close>

text \<open>
  \<open>_start_clone_mode\<close>: the \<open>for a in range(0, status.max)\<close> loop with \<open>status.max = 3\<close>.
  A \<open>RadioError\<close> raised by \<open>_rawrecv\<close> leaves the loop (\<open>except errors.RadioError: raise\<close>).
  The calls of \<open>radio.status_fn\<close> only drive the progress bar and are left out.
\<close>

fun clone_tries :: "nat \<Rightarrow> byte list \<Rightarrow> pipe \<Rightarrow> (error + bool) \<times> pipe" where
  "clone_tries 0 magic p = (Inr False, p)"
| "clone_tries (Suc n) magic p =
     (case rawrecv 1 (send magic p) of
        (Inl e, p') \<Rightarrow> (Inl e, p')
      | (Inr ack, p') \<Rightarrow>
          if ack = ACK_CMD then (Inr True, p') else clone_tries n magic p')"

definition start_clone_mode :: "byte list \<Rightarrow> pipe \<Rightarrow> (error + bool) \<times> pipe" where
  "start_clone_mode magic p =
     (case clean_buffer p of
        (Inl e, p') \<Rightarrow> (Inl e, p')
      | (Inr u, p') \<Rightarrow> clone_tries 3 magic p')"

text \<open>
  \<open>_do_ident\<close>, with \<open>radio._magic\<close> and \<open>radio._id\<close> as parameters. Setting the
  serial discipline has no counterpart in the pipe model.
\<close>

definition do_ident :: "byte list \<Rightarrow> byte list \<Rightarrow> pipe \<Rightarrow> (error + bool) \<times> pipe" where
  "do_ident magic ident_id p =
     (case start_clone_mode magic p of
        (Inl e, p1) \<Rightarrow> (Inl e, p1)
      | (Inr False, p1) \<Rightarrow> (Inl (RadioError Did_not_enter_clone_mode), p1)
      | (Inr True, p1) \<Rightarrow>
          (case rawrecv (length ident_id) (send [0x02] p1) of
             (Inl e, p2) \<Rightarrow> (Inl e, p2)
           | (Inr ident, p2) \<Rightarrow>
               if length ident \<noteq> length ident_id
                 then (Inl (RadioError Odd_identification_block), p2)
               else if ident \<noteq> ident_id
                 then (Inl (RadioError Identification_failed), p2)
               else
                 (case rawrecv 1 (send ACK_CMD p2) of
                    (Inl e, p3) \<Rightarrow> (Inl e, p3)
                  | (Inr ack, p3) \<Rightarrow>
                      if length ack = 1 \<and> ack = ACK_CMD then (Inr True, p3)
                      else (Inl (RadioError Handshake_failed), p3))))"

text \<open>The block addresses \<open>range(0, size, BLOCK_SIZE)\<close>.\<close>

definition block_addrs :: "nat \<Rightarrow> nat list" where
  "block_addrs sz = map (\<lambda>i. i * BLOCK_SIZE) [0 ..< (sz + BLOCK_SIZE - 1) div BLOCK_SIZE]"

text \<open>The body of the download loop, folded over the addresses; \<open>data\<close> accumulates.\<close>

fun download_loop :: "nat list \<Rightarrow> byte list \<Rightarrow> pipe \<Rightarrow> (error + byte list) \<times> pipe" where
  "download_loop [] data p = (Inr data, p)"
| "download_loop (addr # addrs) data p =
     (case make_frame 0x52 addr [] of
        Inl e \<Rightarrow> (Inl e, p)
      | Inr frame \<Rightarrow>
          (case recv addr (send frame p) of
             (Inl e, p') \<Rightarrow> (Inl e, p')
           | (Inr d, p') \<Rightarrow> download_loop addrs (data @ d) p'))"

definition download :: "byte list \<Rightarrow> byte list \<Rightarrow> pipe \<Rightarrow> (error + byte list) \<times> pipe" where
  "download magic ident_id p =
     (case do_ident magic ident_id p of
        (Inl e, p1) \<Rightarrow> (Inl e, p1)
      | (Inr ok, p1) \<Rightarrow>
          (case clean_buffer p1 of
             (Inl e, p2) \<Rightarrow> (Inl e, p2)
           | (Inr u, p2) \<Rightarrow>
               (case download_loop (block_addrs MEM_SIZE) [] p2 of
                  (Inl e, p3) \<Rightarrow> (Inl e, p3)
                | (Inr data, p3) \<Rightarrow> (Inr data, send [0x62] p3))))"





section \<open>The record codec\<close>

subsection \<open>What the driver imports from \<open>chirp_common\<close>\<close>

text \<open>
  The tone tables \<open>chirp_common.TONES\<close> and \<open>chirp_common.DTCS_CODES\<close> and the
  constructor \<open>chirp_common.Memory()\<close> are defined outside this driver. They are
  parameters of the codec: a record holding the two tables and the fresh memory object.
  Analog tones are numbers in tenths of a hertz (\<open>67.0\<close> is 670), digital codes are the
  numbers as the tables print them.

  \<open>chirp_common.split_tone_encode\<close> and \<open>split_tone_decode\<close> translate between
  the tone fields of a \<open>Memory\<close> and a pair of triples (mode, value, polarity), one
  for transmit and one for receive. They are outside the driver as well; the memory
  record of the model carries the pair of triples itself, which is what \<open>_encode_tone\<close>
  receives and what \<open>_decode_tone\<close> returns.
\<close>

type_synonym tone_spec = "string option \<times> nat option \<times> string option"

datatype selector = Num int | Name string

record memory =
  number :: selector
  extd_number :: string
  empty :: bool
  freq :: int
  offset :: int
  duplex :: string
  mode :: string
  skip :: string
  txtone :: tone_spec
  rxtone :: tone_spec

record chirp_common =
  TONES :: "nat list"
  DTCS_CODES :: "nat list"
  Memory :: memory

definition MODES :: "string list" where "MODES = [''NFM'', ''FM'']"
definition SKIP_VALUES :: "string list" where "SKIP_VALUES = [''S'', '''']"

text \<open>\<open>DTCS = tuple(sorted(chirp_common.DTCS_CODES + (645,)))\<close>\<close>

definition DTCS :: "chirp_common \<Rightarrow> nat list" where
  "DTCS cc = sort (DTCS_CODES cc @ [645])"

definition SPECIALS :: "(string \<times> int) list" where
  "SPECIALS = [(''EMG'', -2), (''RLY'', -1)]"

text \<open>\<open>list.index\<close>: the position of the first occurrence, \<open>None\<close> for \<open>ValueError\<close>.\<close>

fun index_of :: "'a list \<Rightarrow> 'a \<Rightarrow> nat option" where
  "index_of [] x = None"
| "index_of (y # ys) x = (if y = x then Some 0 else map_option Suc (index_of ys x))"

subsection \<open>The memory image and its typed views\<close>

text \<open>
  The image is the byte sequence behind \<open>self._mmap\<close>; \<open>_bw_shift\<close> is the only
  other attribute of the radio object that the functions below read or write. An image has
  \<open>MEM_SIZE\<close> bytes; reads and writes beyond the end of a shorter one are not modelled,
  and the theorems that depend on an access being in range say so.

  Modelled from the spec: \<open>bitwise.parse(MEM_FORMAT, self._mmap)\<close> belongs to chirp's
  \<open>bitwise\<close> module, which is not part of this driver. The views follow the layout
  \<open>MEM_FORMAT\<close> declares and the glossary's BCD ("each nibble of a byte encodes one
  decimal digit"): \<open>lbcd\<close> is little-endian BCD, two digits per byte, least significant
  byte first; the bit fields of a \<open>u8\<close> are allocated from the most significant bit
  down, in the order of declaration; \<open>u16\<close> is big-endian; assigning to a \<open>u8\<close> keeps
  the low eight bits.
\<close>

type_synonym image = "byte list"

record radio =
  mmap :: image
  bw_shift :: bool

definition bcd_byte :: "int \<Rightarrow> byte" where
  "bcd_byte twodigits = of_int (16 * (twodigits div 10) + twodigits mod 10)"

definition bcd_value :: "byte \<Rightarrow> nat" where
  "bcd_value b = 10 * (unat b div 16) + unat b mod 16"

fun lbcd_get :: "image \<Rightarrow> nat \<Rightarrow> nat \<Rightarrow> nat" where
  "lbcd_get img off 0 = 0"
| "lbcd_get img off (Suc n) = bcd_value (img ! off) + 100 * lbcd_get img (Suc off) n"

fun lbcd_set :: "nat \<Rightarrow> nat \<Rightarrow> int \<Rightarrow> image \<Rightarrow> image" where
  "lbcd_set off 0 v img = img"
| "lbcd_set off (Suc n) v img = lbcd_set (Suc off) n (v div 100) (img[off := bcd_byte (v mod 100)])"

definition set_u8 :: "nat \<Rightarrow> nat \<Rightarrow> image \<Rightarrow> image" where
  "set_u8 i v img = img[i := of_nat v]"

definition get_bit :: "image \<Rightarrow> nat \<times> nat \<Rightarrow> bool" where
  "get_bit img f = (case f of (i, k) \<Rightarrow> bit (img ! i) k)"

definition set_bitfield :: "nat \<times> nat \<Rightarrow> bool \<Rightarrow> image \<Rightarrow> image" where
  "set_bitfield f v img =
     (case f of (i, k) \<Rightarrow> img[i := (if v then set_bit k (img ! i) else unset_bit k (img ! i))])"

fun set_raw :: "nat \<Rightarrow> byte list \<Rightarrow> image \<Rightarrow> image" where
  "set_raw off [] img = img"
| "set_raw off (b # bs) img = set_raw (Suc off) bs (img[off := b])"

text \<open>
  The fields of \<open>struct channel\<close>, as offsets from the start of the record; a bit field
  is the pair of its byte and its bit number (bit 7 is the most significant).
\<close>

definition rxfreq :: "nat \<Rightarrow> nat" where "rxfreq off = off"
definition rxtone_byte :: "nat \<Rightarrow> nat" where "rxtone_byte off = off + 4"
definition txoffset :: "nat \<Rightarrow> nat" where "txoffset off = off + 5"
definition txtone_byte :: "nat \<Rightarrow> nat" where "txtone_byte off = off + 9"
definition noskip :: "nat \<Rightarrow> nat \<times> nat" where "noskip off = (off + 10, 7)"
definition wide :: "nat \<Rightarrow> nat \<times> nat" where "wide off = (off + 10, 6)"
definition ttondinv :: "nat \<Rightarrow> nat \<times> nat" where "ttondinv off = (off + 10, 5)"
definition rtondinv :: "nat \<Rightarrow> nat \<times> nat" where "rtondinv off = (off + 10, 3)"
definition offplus :: "nat \<Rightarrow> nat \<times> nat" where "offplus off = (off + 10, 1)"
definition offminus :: "nat \<Rightarrow> nat \<times> nat" where "offminus off = (off + 10, 0)"

text \<open>
  \<open>int(x / 10)\<close>, as the assignment to an \<open>lbcd\<close> field computes it from the true
  division \<open>x / 10\<close>: the quotient truncated towards zero (the float is exact for the
  magnitudes a frequency can have).
\<close>

definition div10 :: "int \<Rightarrow> int" where
  "div10 x = (if 0 \<le> x then x div 10 else - ((- x) div 10))"

subsection \<open>Tones\<close>

text \<open>\<open>_decode_tone\<close>; a code beyond the table is Python's \<open>IndexError\<close>.\<close>

definition decode_tone :: "chirp_common \<Rightarrow> nat \<Rightarrow> bool \<Rightarrow> error + tone_spec" where
  "decode_tone cc val inverted =
     (if val = 0 then Inr (Some '''', None, None)
      else if val < 51 then
        (if val - 1 < length (TONES cc)
         then Inr (Some ''Tone'', Some (TONES cc ! (val - 1)), None)
         else Inl IndexError)
      else
        (let pol = (if inverted then ''R'' else ''N'')
         in if val - 51 < length (DTCS cc)
            then Inr (Some ''DTCS'', Some (DTCS cc ! (val - 51)), Some pol)
            else Inl IndexError))"

text \<open>
  \<open>_encode_tone\<close>, with \<open>memtone\<close> and \<open>meminv\<close> as the positions of the tone byte
  and of the inversion bit. A value that is not in its table raises inside the \<open>try\<close>
  before anything is written; the handler formats the message with \<open>%d\<close>, which is a
  \<open>TypeError\<close> when the value is \<open>None\<close>.
\<close>

definition encode_tone ::
  "chirp_common \<Rightarrow> nat \<Rightarrow> nat \<times> nat \<Rightarrow> tone_spec \<Rightarrow> image \<Rightarrow> error + image" where
  "encode_tone cc memtone meminv spec img =
     (case spec of (tmode, tone, pol) \<Rightarrow>
        if tmode = Some '''' \<or> tmode = None then
          Inr (set_bitfield meminv False (set_u8 memtone 0 img))
        else if tmode = Some ''Tone'' then
          (case tone of
             None \<Rightarrow> Inl TypeError
           | Some t \<Rightarrow>
               (case index_of (TONES cc) t of
                  None \<Rightarrow> Inl (RadioError (Tone_not_supported t))
                | Some i \<Rightarrow> Inr (set_bitfield meminv False (set_u8 memtone (i + 1) img))))
        else if tmode = Some ''DTCS'' then
          (case tone of
             None \<Rightarrow> Inl TypeError
           | Some t \<Rightarrow>
               (case index_of (DTCS cc) t of
                  None \<Rightarrow> Inl (RadioError (Digital_tone_not_supported t))
                | Some i \<Rightarrow>
                    Inr (set_bitfield meminv (pol = Some ''R'') (set_u8 memtone (i + 51) img))))
        else Inl InvalidDataError)"

subsection \<open>Channels\<close>

text \<open>
  \<open>_get_special\<close> returns the channel record a selector names; the model returns the
  offset of that record in the image: \<open>emg\<close> at 0x0000, \<open>channels[i]\<close> at
  \<open>0x0010 + 16 * i\<close>, \<open>rly\<close> at 0x0170. A name is looked up in lower case among the
  attributes of the parsed image. The two attributes that are not channel records
  (\<open>channels\<close>, \<open>settings\<close>) are not in the table of the model, which treats them as
  unknown names. A negative number that is not in \<open>SPECIALS\<close> makes the Python return
  \<open>None\<close>, and the first use of that result raises \<open>AttributeError\<close>. Number 0 is
  \<open>channels[-1]\<close>, the last channel.
\<close>

definition lower_char :: "char \<Rightarrow> char" where
  "lower_char c =
     (if 65 \<le> (of_char c :: nat) \<and> (of_char c :: nat) \<le> 90
      then char_of ((of_char c :: nat) + 32) else c)"

definition lower :: "string \<Rightarrow> string" where
  "lower s = map lower_char s"

definition channel_attrs :: "(string \<times> nat) list" where
  "channel_attrs = [(''emg'', 0x0000), (''rly'', 0x0170)]"

definition get_special :: "selector \<Rightarrow> error + nat" where
  "get_special num =
     (case num of
        Name s \<Rightarrow>
          (case map_of channel_attrs (lower s) of
             None \<Rightarrow> Inl AttributeError
           | Some off \<Rightarrow> Inr off)
      | Num n \<Rightarrow>
          if n < 0 then
            (case filter (\<lambda>(k, v). n = v) SPECIALS of
               [] \<Rightarrow> Inl AttributeError
             | (k, v) # kvs \<Rightarrow>
                 (case map_of channel_attrs (lower k) of
                    None \<Rightarrow> Inl AttributeError
                  | Some off \<Rightarrow> Inr off))
          else if n = 0 then Inr (0x0010 + 16 * 19)
          else if n \<le> 20 then Inr (0x0010 + 16 * nat (n - 1))
          else Inl IndexError)"

text \<open>The duplex part of \<open>get_memory\<close> ("must work out the polarity").\<close>

definition decode_duplex :: "bool \<Rightarrow> bool \<Rightarrow> memory \<Rightarrow> memory" where
  "decode_duplex is_offminus is_offplus mem =
     (if offset mem \<noteq> 0 then
        let mem = (if is_offminus then mem\<lparr>duplex := ''-''\<rparr> else mem);
            mem = (if is_offplus then mem\<lparr>duplex := ''+''\<rparr> else mem)
        in if offset mem > 71000000 then
             let mem = mem\<lparr>duplex := ''split''\<rparr>;
                 mem = (if is_offminus then mem\<lparr>offset := freq mem - offset mem\<rparr> else mem);
                 mem = (if is_offplus then mem\<lparr>offset := freq mem + offset mem\<rparr> else mem)
             in mem
           else mem
      else mem)"

definition get_memory :: "chirp_common \<Rightarrow> selector \<Rightarrow> radio \<Rightarrow> (error + memory) \<times> radio" where
  "get_memory cc num r =
     (case get_special num of
        Inl e \<Rightarrow> (Inl e, r)
      | Inr off \<Rightarrow>
          (case (case num of
                   Name s \<Rightarrow>
                     (case map_of SPECIALS s of
                        None \<Rightarrow> Inl KeyError
                      | Some v \<Rightarrow> Inr ((Memory cc)\<lparr>number := Num v, extd_number := s\<rparr>))
                 | Num n \<Rightarrow> Inr ((Memory cc)\<lparr>number := Num n\<rparr>)) of
             Inl e \<Rightarrow> (Inl e, r)
           | Inr mem \<Rightarrow>
               if mmap r ! off = 0xFF then (Inr (mem\<lparr>empty := True\<rparr>), r)
               else
                 let mem = mem\<lparr>freq := int (lbcd_get (mmap r) (rxfreq off) 4) * 10\<rparr>;
                     mem = mem\<lparr>offset := int (lbcd_get (mmap r) (txoffset off) 4) * 10\<rparr>;
                     mem = mem\<lparr>duplex := ''''\<rparr>;
                     mem = decode_duplex (get_bit (mmap r) (offminus off))
                             (get_bit (mmap r) (offplus off)) mem;
                     mem = mem\<lparr>mode := MODES ! (if get_bit (mmap r) (wide off) then 1 else 0)\<rparr>;
                     mem = mem\<lparr>skip := SKIP_VALUES ! (if get_bit (mmap r) (noskip off) then 1 else 0)\<rparr>
                 in (case decode_tone cc (unat (mmap r ! txtone_byte off))
                            (get_bit (mmap r) (ttondinv off)) of
                       Inl e \<Rightarrow> (Inl e, r)
                     | Inr tx_spec \<Rightarrow>
                         (case decode_tone cc (unat (mmap r ! rxtone_byte off))
                                 (get_bit (mmap r) (rtondinv off)) of
                            Inl e \<Rightarrow> (Inl e, r)
                          | Inr rx_spec \<Rightarrow> (Inr (mem\<lparr>txtone := tx_spec, rxtone := rx_spec\<rparr>), r)))))"

text \<open>
  The duplex part of \<open>set_memory\<close>; a duplex outside the four values writes no flag.
\<close>

definition encode_duplex :: "nat \<Rightarrow> memory \<Rightarrow> image \<Rightarrow> image" where
  "encode_duplex off mem img =
     (if duplex mem = '''' then
        set_bitfield (offminus off) False (set_bitfield (offplus off) False img)
      else if duplex mem = ''+'' then
        set_bitfield (offminus off) False (set_bitfield (offplus off) True img)
      else if duplex mem = ''-'' then
        set_bitfield (offminus off) True (set_bitfield (offplus off) False img)
      else if duplex mem = ''split'' then
        (if freq mem > offset mem then
           lbcd_set (txoffset off) 4 (div10 (freq mem - offset mem))
             (set_bitfield (offminus off) True (set_bitfield (offplus off) False img))
         else
           lbcd_set (txoffset off) 4 (div10 (offset mem - freq mem))
             (set_bitfield (offminus off) False (set_bitfield (offplus off) True img)))
      else img)"

text \<open>
  \<open>set_memory\<close>. Every assignment to a field of the record changes the image at once,
  so the image that comes back with an error holds whatever was written before the
  \<open>raise\<close>.
\<close>

definition set_memory :: "chirp_common \<Rightarrow> memory \<Rightarrow> radio \<Rightarrow> (error + memory) \<times> radio" where
  "set_memory cc mem r =
     (case get_special (number mem) of
        Inl e \<Rightarrow> (Inl e, r)
      | Inr off \<Rightarrow>
          if empty mem then (Inr mem, r\<lparr>mmap := set_raw off (replicate 16 0xFF) (mmap r)\<rparr>)
          else
            let img = lbcd_set (rxfreq off) 4 (div10 (freq mem)) (mmap r);
                img = lbcd_set (txoffset off) 4 (div10 (offset mem)) img;
                img = encode_duplex off mem img
            in (case index_of MODES (mode mem) of
                  None \<Rightarrow> (Inl ValueError, r\<lparr>mmap := img\<rparr>)
                | Some w \<Rightarrow>
                    let img = set_bitfield (wide off) (w \<noteq> 0) img
                    in (case index_of SKIP_VALUES (skip mem) of
                          None \<Rightarrow> (Inl ValueError, r\<lparr>mmap := img\<rparr>)
                        | Some s \<Rightarrow>
                            let img = set_bitfield (noskip off) (s \<noteq> 0) img
                            in (case encode_tone cc (txtone_byte off) (ttondinv off) (txtone mem) img of
                                  Inl e \<Rightarrow> (Inl e, r\<lparr>mmap := img\<rparr>)
                                | Inr img \<Rightarrow>
                                    (case encode_tone cc (rxtone_byte off) (rtondinv off) (rxtone mem) img of
                                       Inl e \<Rightarrow> (Inl e, r\<lparr>mmap := img\<rparr>)
                                     | Inr img \<Rightarrow> (Inr mem, r\<lparr>mmap := img\<rparr>))))))"

subsection \<open>Settings\<close>

text \<open>
  Of \<open>get_settings\<close>, the lines that build the volume setting and the FM VFO setting.
  \<open>settings.volume\<close> is the byte at 0x016B and \<open>settings.fm_vfo\<close> the big-endian
  \<open>u16\<close> at 0x016C. The frequency of the FM setting is a Python float; the model
  computes it as a real number, in MHz. \<open>108.0 * 10 - 650\<close> is 430.
\<close>

definition settings_volume :: "radio \<Rightarrow> nat" where
  "settings_volume r = unat (mmap r ! 0x016B)"


definition get_settings_volume :: "radio \<Rightarrow> nat \<times> radio" where
  "get_settings_volume r =
     (let volume = settings_volume r;
          volume = (if volume > 7 then 7 else volume)
      in (volume, r))"



text \<open>
  \<open>set_settings\<close>. An element of the settings tree is a group of elements or a setting
  with its name, its \<open>changed()\<close> flag, its value as an integer and, when it has one, its
  apply callback, which acts on the radio. Without a callback the value is assigned to the
  field of \<open>settings\<close> that has the setting's name; \<open>getattr\<close> raises for a name that
  is no field. The fields are the ones a setting can name: bytes, the bit fields of the
  byte at 0x0165, the \<open>u16\<close> and the four band limits.
\<close>

datatype field = U8 nat | Bits nat nat nat | U16 nat | Lbcd nat nat

definition settings_fields :: "(string \<times> field) list" where
  "settings_fields =
     [(''vhfl'', Lbcd 0x0150 2), (''vhfh'', Lbcd 0x0152 2),
      (''uhfl'', Lbcd 0x0154 2), (''uhfh'', Lbcd 0x0156 2),
      (''squelch'', U8 0x0162), (''vox'', U8 0x0163), (''timeout'', U8 0x0164),
      (''batsave'', Bits 0x0165 7 1), (''fm_funct'', Bits 0x0165 6 1),
      (''ste'', Bits 0x0165 5 1), (''blo'', Bits 0x0165 4 1),
      (''beep'', Bits 0x0165 3 1), (''lock'', Bits 0x0165 2 1),
      (''backlight'', Bits 0x0165 0 2),
      (''scantype'', U8 0x0166), (''channel'', U8 0x0167), (''fmrange'', U8 0x0168),
      (''alarm'', U8 0x0169), (''voice'', U8 0x016A), (''volume'', U8 0x016B),
      (''fm_vfo'', U16 0x016C), (''relaym'', U8 0x016E), (''tx_pwr'', U8 0x016F)]"

definition set_field :: "field \<Rightarrow> int \<Rightarrow> image \<Rightarrow> image" where
  "set_field f v img =
     (case f of
        U8 i \<Rightarrow> img[i := of_int v]
      | Bits i shift width \<Rightarrow>
          img[i := (img ! i AND NOT (push_bit shift (mask width)))
                     OR (push_bit shift (of_int v) AND push_bit shift (mask width))]
      | U16 i \<Rightarrow> img[i := of_int (v div 256), i + 1 := of_int v]
      | Lbcd i n \<Rightarrow> lbcd_set i n v img)"

datatype element =
    Group "element list"
  | RadioSetting string bool int "(radio \<Rightarrow> (error + unit) \<times> radio) option"

fun set_settings :: "element list \<Rightarrow> radio \<Rightarrow> (error + unit) \<times> radio"
  and set_element :: "element \<Rightarrow> radio \<Rightarrow> (error + unit) \<times> radio" where
  "set_settings [] r = (Inr (), r)"
| "set_settings (element # uisettings) r =
     (case set_element element r of
        (Inl e, r') \<Rightarrow> (Inl e, r')
      | (Inr u, r') \<Rightarrow> set_settings uisettings r')"
| "set_element (Group uisettings) r = set_settings uisettings r"
| "set_element (RadioSetting name changed v callback) r =
     (if \<not> changed then (Inr (), r)
      else
        (case callback of
           Some run_apply_callback \<Rightarrow> run_apply_callback r
         | None \<Rightarrow>
             (case map_of settings_fields name of
                None \<Rightarrow> (Inl AttributeError, r)
              | Some f \<Rightarrow> (Inr (), r\<lparr>mmap := set_field f v (mmap r)\<rparr>))))"

subsection \<open>A concrete instance\<close>

text \<open>
  Modelled from the spec: the contents of \<open>chirp_common.TONES\<close>,
  \<open>chirp_common.DTCS_CODES\<close> and the defaults of \<open>chirp_common.Memory()\<close> are not
  in this driver, and the spec only calls them fixed tables. The instance below holds the
  50 analog tones and the 104 digital codes of chirp (the driver's layout comment gives the
  same counts: codes 0x01 to 0x32 are analog, 0x33 to 0x9b digital, 645 included) and a
  fresh memory. It is used to run the codec on concrete channels; the theorems hold for
  every instance.
\<close>

definition stock :: chirp_common where
  "stock = \<lparr>
     TONES = [670, 693, 719, 744, 770, 797, 825, 854, 885, 915, 948, 974, 1000, 1035, 1072,
       1109, 1148, 1188, 1230, 1273, 1318, 1365, 1413, 1462, 1514, 1567, 1598, 1622, 1655,
       1679, 1713, 1738, 1773, 1799, 1835, 1862, 1899, 1928, 1966, 1995, 2035, 2065, 2107,
       2181, 2257, 2291, 2336, 2418, 2503, 2541],
     DTCS_CODES = [23, 25, 26, 31, 32, 36, 43, 47, 51, 53, 54, 65, 71, 72, 73, 74, 114, 115,
       116, 122, 125, 131, 132, 134, 143, 145, 152, 155, 156, 162, 165, 172, 174, 205, 212,
       223, 225, 226, 243, 244, 245, 246, 251, 252, 255, 261, 263, 265, 266, 271, 274, 306,
       311, 315, 325, 331, 332, 343, 346, 351, 356, 364, 365, 371, 411, 412, 413, 423, 431,
       432, 445, 446, 452, 454, 455, 462, 464, 465, 466, 503, 506, 516, 523, 526, 532, 546,
       565, 606, 612, 624, 627, 631, 632, 654, 662, 664, 703, 712, 723, 731, 732, 734, 743,
       754],
     Memory = \<lparr>number = Num 0, extd_number = '''', empty = False, freq = 0,
       offset = 600000, duplex = '''', mode = ''FM'', skip = '''',
       txtone = (Some '''', None, None), rxtone = (Some '''', None, None)\<rparr>\<rparr>"

text \<open>An image of 2048 zero bytes in a radio that has not seen a byte-swapped FM value.\<close>

definition blank :: radio where
  "blank = \<lparr>mmap = replicate 2048 0x00, bw_shift = False\<rparr>"

subsection \<open>Predicates used in the statements\<close>

text \<open>
  A channel value is valid for the codec when its tone settings are drawn from the tables
  and its offset fits its duplex: for no duplex an offset of at most 71 MHz, for a plus or
  minus shift an offset that is positive and at most 71 MHz, for split an absolute transmit
  frequency that is more than 71 MHz and less than 1 GHz away from the receive frequency;
  in every case a multiple of 10 Hz, the unit of the stored field.
\<close>

definition valid_tone :: "chirp_common \<Rightarrow> tone_spec \<Rightarrow> bool" where
  "valid_tone cc spec =
     (case spec of (tmode, tone, pol) \<Rightarrow>
        (tmode = Some '''' \<and> tone = None \<and> pol = None)
        \<or> (tmode = Some ''Tone'' \<and> (case tone of None \<Rightarrow> False | Some t \<Rightarrow> t \<in> set (TONES cc))
             \<and> pol = None)
        \<or> (tmode = Some ''DTCS'' \<and> (case tone of None \<Rightarrow> False | Some t \<Rightarrow> t \<in> set (DTCS cc))
             \<and> (pol = Some ''N'' \<or> pol = Some ''R'')))"

definition valid_offset :: "memory \<Rightarrow> bool" where
  "valid_offset mem =
     (10 dvd offset mem \<and>
      (if duplex mem = '''' then 0 \<le> offset mem \<and> offset mem \<le> 71000000
       else if duplex mem = ''+'' \<or> duplex mem = ''-'' then 0 < offset mem \<and> offset mem \<le> 71000000
       else duplex mem = ''split'' \<and> 71000000 < \<bar>freq mem - offset mem\<bar>
              \<and> \<bar>freq mem - offset mem\<bar> < 1000000000))"

text \<open>
  Two images agree outside the 16-byte record that starts at an offset.
\<close>

definition unchanged_outside :: "nat \<Rightarrow> image \<Rightarrow> image \<Rightarrow> bool" where
  "unchanged_outside off img img' \<longleftrightarrow>
     length img' = length img \<and> (\<forall>i. i < off \<or> off + 16 \<le> i \<longrightarrow> img' ! i = img ! i)"

text \<open>
  The writes of \<open>set_memory\<close> that follow the duplex: bandwidth, skip and the two tones,
  with the tone codes and inversion flags that \<open>_encode_tone\<close> computed.
\<close>

definition tail_writes ::
  "nat \<Rightarrow> bool \<Rightarrow> bool \<Rightarrow> nat \<Rightarrow> bool \<Rightarrow> nat \<Rightarrow> bool \<Rightarrow> image \<Rightarrow> image" where
  "tail_writes off w s tcode tinv rcode rinv x =
     set_bitfield (rtondinv off) rinv (set_u8 (rxtone_byte off) rcode
       (set_bitfield (ttondinv off) tinv (set_u8 (txtone_byte off) tcode
         (set_bitfield (noskip off) s (set_bitfield (wide off) w x)))))"

text \<open>
  A channel to run the codec on: 145.0125 MHz with a minus shift of 600 kHz, tone 88.5 Hz
  on transmit and digital code 023 reversed on receive, for channel 1.
\<close>

definition sample :: memory where
  "sample = (Memory stock)\<lparr>number := Num 1, freq := 145012500, offset := 600000,
      duplex := ''-'', txtone := (Some ''Tone'', Some 885, None),
      rxtone := (Some ''DTCS'', Some 23, Some ''R'')\<rparr>"


section \<open>Properties of the clone protocol\<close>

subsection \<open>Draining the serial buffer\<close>

lemma clean_loop_fst:
  "fst (clean_loop dc p) =
     (if dc + length (concat (takeWhile (\<lambda>b. b \<noteq> []) (rx p))) > 101
      then Inl (RadioError Unknown_error_cleaning) else Inr ())"
proof (induction dc p rule: clean_loop.induct)
  case (1 dc p)
  show ?case
  proof (cases "rx p")
    case Nil
    then show ?thesis
      by (subst clean_loop.simps) (simp add: pipe_read_def)
  next
    case (Cons b bs)
    show ?thesis
    proof (cases "length b \<le> 100")
      case True
      then have rd: "pipe_read 100 p = (b, p\<lparr>rx := bs\<rparr>)"
        using Cons by (simp add: pipe_read_def)
      show ?thesis
        using "1.IH"[OF rd[symmetric] refl refl] Cons True
        by (subst clean_loop.simps) (auto simp: rd Let_def)
    next
      case False
      then have rd: "pipe_read 100 p = (take 100 b, p\<lparr>rx := drop 100 b # bs\<rparr>)"
        using Cons by (simp add: pipe_read_def)
      have nz: "b \<noteq> []" "drop 100 b \<noteq> []" using False by auto
      show ?thesis
        using "1.IH"[OF rd[symmetric] refl refl] Cons False nz
        by (subst clean_loop.simps) (auto simp: rd)
    qed
  qed
qed

lemma clean_loop_snd:
  "dc + length (concat (takeWhile (\<lambda>b. b \<noteq> []) (rx p))) \<le> 101 \<Longrightarrow>
   snd (clean_loop dc p) = p\<lparr>rx := drop 1 (dropWhile (\<lambda>b. b \<noteq> []) (rx p))\<rparr>"
proof (induction dc p rule: clean_loop.induct)
  case (1 dc p)
  show ?case
  proof (cases "rx p")
    case Nil
    then show ?thesis
      by (subst clean_loop.simps) (simp add: pipe_read_def)
  next
    case (Cons b bs)
    show ?thesis
    proof (cases "length b \<le> 100")
      case True
      then have rd: "pipe_read 100 p = (b, p\<lparr>rx := bs\<rparr>)"
        using Cons by (simp add: pipe_read_def)
      show ?thesis
        using "1.IH"[OF rd[symmetric] refl refl] "1.prems" Cons True
        by (subst clean_loop.simps) (auto simp: rd Let_def)
    next
      case False
      then have rd: "pipe_read 100 p = (take 100 b, p\<lparr>rx := drop 100 b # bs\<rparr>)"
        using Cons by (simp add: pipe_read_def)
      have nz: "b \<noteq> []" "drop 100 b \<noteq> []" using False by auto
      show ?thesis
        using "1.IH"[OF rd[symmetric] refl refl] "1.prems" Cons False nz
        by (subst clean_loop.simps) (auto simp: rd Let_def)
    qed
  qed
qed

lemma clean_loop_tx: "tx (snd (clean_loop dc p)) = tx p"
proof (induction dc p rule: clean_loop.induct)
  case (1 dc p)
  obtain dump p' where rd: "pipe_read 100 p = (dump, p')" by (cases "pipe_read 100 p")
  have t: "tx p' = tx p" using rd by (auto simp: pipe_read_def split: list.splits if_splits)
  show ?case
    using "1.IH"[OF rd[symmetric] refl] t
    by (subst clean_loop.simps) (auto simp: rd Let_def)
qed

lemma send_rawrecv_byte:
  "rx p = [x] # rest \<Longrightarrow>
   rawrecv (Suc 0) (send d p) = (Inr [x], p\<lparr>rx := rest, tx := tx p @ [d]\<rparr>)"
  by (simp add: rawrecv_def pipe_read_def send_def pipe_write_def)

lemma send_rawrecv_silent:
  "rx p = [] \<or> hd (rx p) = [] \<Longrightarrow>
   rawrecv (Suc 0) (send d p) =
     (Inl (RadioError Error_reading_data), p\<lparr>rx := tl (rx p), tx := tx p @ [d]\<rparr>)"
  by (cases "rx p") (auto simp: rawrecv_def pipe_read_def send_def pipe_write_def)

lemma clone_tries_ack:
  "length xs < n \<Longrightarrow> \<forall>x\<in>set xs. x \<noteq> 0x06 \<Longrightarrow>
   rx p = map (\<lambda>x. [x]) xs @ [0x06] # rest \<Longrightarrow>
   clone_tries n magic p =
     (Inr True, p\<lparr>rx := rest, tx := tx p @ replicate (length xs + 1) magic\<rparr>)"
proof (induction xs arbitrary: n p)
  case Nil
  then obtain m where n: "n = Suc m" by (cases n) auto
  show ?case using Nil
    by (simp add: n send_rawrecv_byte ACK_CMD_def)
next
  case (Cons x xs)
  then obtain m where n: "n = Suc m" by (cases n) auto
  let ?p = "p\<lparr>rx := map (\<lambda>x. [x]) xs @ [0x06] # rest, tx := tx p @ [magic]\<rparr>"
  have "clone_tries m magic ?p =
     (Inr True, ?p\<lparr>rx := rest, tx := tx ?p @ replicate (length xs + 1) magic\<rparr>)"
    using Cons.prems by (intro Cons.IH) (auto simp: n)
  then show ?case using Cons.prems
    by (simp add: n send_rawrecv_byte ACK_CMD_def replicate_append_same)
qed

lemma clone_tries_all_bad:
  "length xs = n \<Longrightarrow> \<forall>x\<in>set xs. x \<noteq> 0x06 \<Longrightarrow>
   rx p = map (\<lambda>x. [x]) xs @ rest \<Longrightarrow>
   clone_tries n magic p =
     (Inr False, p\<lparr>rx := rest, tx := tx p @ replicate n magic\<rparr>)"
proof (induction xs arbitrary: n p)
  case Nil
  then show ?case by simp
next
  case (Cons x xs)
  then obtain m where n: "n = Suc m" by (cases n) auto
  let ?p = "p\<lparr>rx := map (\<lambda>x. [x]) xs @ rest, tx := tx p @ [magic]\<rparr>"
  have "clone_tries m magic ?p =
     (Inr False, ?p\<lparr>rx := rest, tx := tx ?p @ replicate m magic\<rparr>)"
    using Cons.prems by (intro Cons.IH) (auto simp: n)
  then show ?case using Cons.prems
    by (simp add: n send_rawrecv_byte ACK_CMD_def replicate_append_same)
qed

lemma clone_tries_silent:
  "length xs < n \<Longrightarrow> \<forall>x\<in>set xs. x \<noteq> 0x06 \<Longrightarrow>
   rx p = map (\<lambda>x. [x]) xs @ rest \<Longrightarrow> rest = [] \<or> hd rest = [] \<Longrightarrow>
   clone_tries n magic p =
     (Inl (RadioError Error_reading_data),
      p\<lparr>rx := tl rest, tx := tx p @ replicate (length xs + 1) magic\<rparr>)"
proof (induction xs arbitrary: n p)
  case Nil
  then obtain m where n: "n = Suc m" by (cases n) auto
  show ?case using Nil
    by (simp add: n send_rawrecv_silent)
next
  case (Cons x xs)
  then obtain m where n: "n = Suc m" by (cases n) auto
  let ?p = "p\<lparr>rx := map (\<lambda>x. [x]) xs @ rest, tx := tx p @ [magic]\<rparr>"
  have "clone_tries m magic ?p =
     (Inl (RadioError Error_reading_data),
      ?p\<lparr>rx := tl rest, tx := tx ?p @ replicate (length xs + 1) magic\<rparr>)"
    using Cons.prems by (intro Cons.IH) (auto simp: n)
  then show ?case using Cons.prems
    by (simp add: n send_rawrecv_byte ACK_CMD_def replicate_append_same)
qed

subsection \<open>The upload loop\<close>







subsection \<open>Block validation\<close>

text \<open>
  Claim C5. \<open>_recv\<close> asks the pipe for 20 bytes. Whatever comes back is accepted only
  when it is exactly 20 bytes long, starts with \<open>'W'\<close> (0x57), carries the requested
  address in bytes 1 and 2 (high byte first) and the length byte 16; the result is then the
  16 bytes after the header. Any other answer, the empty one included, is rejected with a
  \<open>RadioError\<close> (the spec's framing error). The outcome is a function of the bytes read
  and of the requested address alone.
\<close>

theorem recv_validates_frame:
  assumes "pipe_read (BLOCK_SIZE + 4) p = (block, p')"
  shows "(length block = 20 \<and> block ! 0 = 0x57
            \<and> 256 * unat (block ! 1) + unat (block ! 2) = addr \<and> unat (block ! 3) = 16
          \<longrightarrow> recv addr p = (Inr (drop 4 block), p') \<and> length (drop 4 block) = 16)
       \<and> (length block \<noteq> 20 \<or> block ! 0 \<noteq> 0x57
            \<or> 256 * unat (block ! 1) + unat (block ! 2) \<noteq> addr \<or> unat (block ! 3) \<noteq> 16
          \<longrightarrow> (\<exists>m. recv addr p = (Inl (RadioError m), p')))"
  using assms by (auto simp: recv_def rawrecv_def BLOCK_SIZE_def Let_def)

theorem recv_validates_frame_witness:
  "recv 0x0170 \<lparr>rx = [[0x57, 0x01, 0x70, 0x10] @ replicate 16 0xFF], tx = []\<rparr>
     = (Inr (replicate 16 0xFF), \<lparr>rx = [], tx = []\<rparr>)
   \<and> (\<exists>m. recv 0x0170 \<lparr>rx = [[0x57, 0x01, 0x60, 0x10] @ replicate 16 0xFF], tx = []\<rparr>
         = (Inl (RadioError m), \<lparr>rx = [], tx = []\<rparr>))"
proof -
  have r1: "pipe_read (BLOCK_SIZE + 4) \<lparr>rx = [[0x57, 0x01, 0x70, 0x10] @ replicate 16 0xFF], tx = []\<rparr>
      = ([0x57, 0x01, 0x70, 0x10] @ replicate 16 0xFF, \<lparr>rx = [], tx = []\<rparr>)"
    by (simp add: pipe_read_def BLOCK_SIZE_def)
  have r2: "pipe_read (BLOCK_SIZE + 4) \<lparr>rx = [[0x57, 0x01, 0x60, 0x10] @ replicate 16 0xFF], tx = []\<rparr>
      = ([0x57, 0x01, 0x60, 0x10] @ replicate 16 0xFF, \<lparr>rx = [], tx = []\<rparr>)"
    by (simp add: pipe_read_def BLOCK_SIZE_def)
  show ?thesis
    using recv_validates_frame [OF r1, of "0x0170"] recv_validates_frame [OF r2, of "0x0170"]
    by simp
qed

subsection \<open>Upload\<close>



subsection \<open>Entering clone mode\<close>

text \<open>
  Claim C6, as amended. \<open>_start_clone_mode\<close> first drains the pending bytes (the
  leading non-empty bursts of the script) and fails with a \<open>RadioError\<close>, before any
  magic is sent, when they are more than 101. Otherwise it makes up to three attempts, each
  sending the magic (8 bytes for the BF-T1) and reading one byte. An ACK byte ends the
  attempts with \<open>True\<close>. \<open>False\<close> is returned only when all three attempts read a byte
  that is not the ACK. An attempt whose read brings no byte does not count as a failed
  attempt: the \<open>RadioError\<close> of \<open>_rawrecv\<close> leaves the function at once, and the
  remaining attempts are not made.
\<close>

theorem start_clone_mode_attempts:
  "length BFT1_magic = 8
   \<and> (101 < length (concat (takeWhile (\<lambda>b. b \<noteq> []) (rx p))) \<longrightarrow>
         fst (start_clone_mode magic p) = Inl (RadioError Unknown_error_cleaning)
         \<and> tx (snd (start_clone_mode magic p)) = tx p)
   \<and> (length (concat (takeWhile (\<lambda>b. b \<noteq> []) (rx p))) \<le> 101
        \<and> (\<forall>x\<in>set xs. x \<noteq> 0x06)
        \<and> drop 1 (dropWhile (\<lambda>b. b \<noteq> []) (rx p)) = map (\<lambda>x. [x]) xs @ rest \<longrightarrow>
         (length xs < 3 \<and> (\<exists>rest'. rest = [0x06] # rest') \<longrightarrow>
            start_clone_mode magic p =
              (Inr True, p\<lparr>rx := tl rest, tx := tx p @ replicate (length xs + 1) magic\<rparr>))
         \<and> (length xs = 3 \<longrightarrow>
            start_clone_mode magic p =
              (Inr False, p\<lparr>rx := rest, tx := tx p @ replicate 3 magic\<rparr>))
         \<and> (length xs < 3 \<and> (rest = [] \<or> hd rest = []) \<longrightarrow>
            start_clone_mode magic p =
              (Inl (RadioError Error_reading_data),
               p\<lparr>rx := tl rest, tx := tx p @ replicate (length xs + 1) magic\<rparr>)))"
proof (intro conjI impI)
  show "length BFT1_magic = 8" by (simp add: BFT1_magic_def)
next
  assume "101 < length (concat (takeWhile (\<lambda>b. b \<noteq> []) (rx p)))"
  then have "fst (clean_buffer p) = Inl (RadioError Unknown_error_cleaning)"
    by (simp add: clean_buffer_def clean_loop_fst)
  then show "fst (start_clone_mode magic p) = Inl (RadioError Unknown_error_cleaning)"
    "tx (snd (start_clone_mode magic p)) = tx p"
    using clean_loop_tx [of 0 p]
    by (auto simp: start_clone_mode_def clean_buffer_def split: prod.splits sum.splits)
next
  let ?q = "p\<lparr>rx := drop 1 (dropWhile (\<lambda>b. b \<noteq> []) (rx p))\<rparr>"
  assume h: "length (concat (takeWhile (\<lambda>b. b \<noteq> []) (rx p))) \<le> 101
        \<and> (\<forall>x\<in>set xs. x \<noteq> 0x06)
        \<and> drop 1 (dropWhile (\<lambda>b. b \<noteq> []) (rx p)) = map (\<lambda>x. [x]) xs @ rest"
  then have "clean_buffer p = (Inr (), ?q)"
    using clean_loop_fst [of 0 p] clean_loop_snd [of 0 p]
    by (simp add: clean_buffer_def prod_eq_iff)
  then have s: "start_clone_mode magic p = clone_tries 3 magic ?q"
    by (simp add: start_clone_mode_def)
  {
    assume a: "length xs < 3 \<and> (\<exists>rest'. rest = [0x06] # rest')"
    then obtain rest' where r: "rest = [0x06] # rest'" by blast
    have "clone_tries 3 magic ?q =
       (Inr True, ?q\<lparr>rx := rest', tx := tx ?q @ replicate (length xs + 1) magic\<rparr>)"
      using h a r by (intro clone_tries_ack) auto
    then show "start_clone_mode magic p =
              (Inr True, p\<lparr>rx := tl rest, tx := tx p @ replicate (length xs + 1) magic\<rparr>)"
      using s r by simp
  }
  {
    assume a: "length xs = 3"
    have "clone_tries 3 magic ?q =
       (Inr False, ?q\<lparr>rx := rest, tx := tx ?q @ replicate 3 magic\<rparr>)"
      using h a by (intro clone_tries_all_bad) auto
    then show "start_clone_mode magic p =
              (Inr False, p\<lparr>rx := rest, tx := tx p @ replicate 3 magic\<rparr>)"
      using s by simp
  }
  {
    assume a: "length xs < 3 \<and> (rest = [] \<or> hd rest = [])"
    have "clone_tries 3 magic ?q =
       (Inl (RadioError Error_reading_data),
        ?q\<lparr>rx := tl rest, tx := tx ?q @ replicate (length xs + 1) magic\<rparr>)"
      using h a by (intro clone_tries_silent) auto
    then show "start_clone_mode magic p =
              (Inl (RadioError Error_reading_data),
               p\<lparr>rx := tl rest, tx := tx p @ replicate (length xs + 1) magic\<rparr>)"
      using s by simp
  }
qed

theorem start_clone_mode_attempts_witness:
  "fst (start_clone_mode BFT1_magic \<lparr>rx = [replicate 102 0x00], tx = []\<rparr>)
      = Inl (RadioError Unknown_error_cleaning)
   \<and> start_clone_mode BFT1_magic \<lparr>rx = [[0x01, 0x02], [], [0x15], [0x06]], tx = []\<rparr>
      = (Inr True, \<lparr>rx = [], tx = [BFT1_magic, BFT1_magic]\<rparr>)
   \<and> start_clone_mode BFT1_magic \<lparr>rx = [[], [0x15], [0x15], [0x15], [0x06]], tx = []\<rparr>
      = (Inr False, \<lparr>rx = [[0x06]], tx = [BFT1_magic, BFT1_magic, BFT1_magic]\<rparr>)
   \<and> start_clone_mode BFT1_magic \<lparr>rx = [[], [0x15], [], [0x06]], tx = []\<rparr>
      = (Inl (RadioError Error_reading_data), \<lparr>rx = [[0x06]], tx = [BFT1_magic, BFT1_magic]\<rparr>)"
proof -
  have r3: "replicate 3 BFT1_magic = [BFT1_magic, BFT1_magic, BFT1_magic]"
    by (simp add: numeral_3_eq_3)
  have w1: "fst (start_clone_mode BFT1_magic \<lparr>rx = [replicate 102 0x00], tx = []\<rparr>)
      = Inl (RadioError Unknown_error_cleaning)"
    using start_clone_mode_attempts [where p = "\<lparr>rx = [replicate 102 0x00], tx = []\<rparr>"
      and magic = BFT1_magic and xs = "[]" and rest = "[]"]
    by simp
  have w2: "start_clone_mode BFT1_magic \<lparr>rx = [[0x01, 0x02], [], [0x15], [0x06]], tx = []\<rparr>
      = (Inr True, \<lparr>rx = [], tx = [BFT1_magic, BFT1_magic]\<rparr>)"
    using start_clone_mode_attempts [where p = "\<lparr>rx = [[0x01, 0x02], [], [0x15], [0x06]], tx = []\<rparr>"
      and magic = BFT1_magic and xs = "[0x15]" and rest = "[[0x06]]"]
    by simp
  have w3: "start_clone_mode BFT1_magic \<lparr>rx = [[], [0x15], [0x15], [0x15], [0x06]], tx = []\<rparr>
      = (Inr False, \<lparr>rx = [[0x06]], tx = [BFT1_magic, BFT1_magic, BFT1_magic]\<rparr>)"
    using start_clone_mode_attempts [where p = "\<lparr>rx = [[], [0x15], [0x15], [0x15], [0x06]], tx = []\<rparr>"
      and magic = BFT1_magic and xs = "[0x15, 0x15, 0x15]" and rest = "[[0x06]]"]
    by (simp add: r3)
  have w4: "start_clone_mode BFT1_magic \<lparr>rx = [[], [0x15], [], [0x06]], tx = []\<rparr>
      = (Inl (RadioError Error_reading_data), \<lparr>rx = [[0x06]], tx = [BFT1_magic, BFT1_magic]\<rparr>)"
    using start_clone_mode_attempts [where p = "\<lparr>rx = [[], [0x15], [], [0x06]], tx = []\<rparr>"
      and magic = BFT1_magic and xs = "[0x15]" and rest = "[[], [0x06]]"]
    by simp
  show ?thesis using w1 w2 w3 w4 by blast
qed

text \<open>
  With a silent radio the claim as written ("returns false if all attempts fail") does not
  hold: the first attempt reads nothing, and the call raises after a single magic.
\<close>

theorem start_clone_mode_silent_radio:
  "start_clone_mode BFT1_magic \<lparr>rx = [], tx = []\<rparr>
     = (Inl (RadioError Error_reading_data), \<lparr>rx = [], tx = [BFT1_magic]\<rparr>)"
  by code_simp

section \<open>Properties of the record codec\<close>

subsection \<open>Bytes, bits and BCD fields\<close>

lemmas channel_fields =
  rxfreq_def rxtone_byte_def txoffset_def txtone_byte_def noskip_def wide_def
  ttondinv_def rtondinv_def offplus_def offminus_def

lemma nibbles_nat: "b < 10 \<Longrightarrow> (16 * a + b) div 16 = (a::nat) \<and> (16 * a + b) mod 16 = b"
  by simp

lemma bcd_small: "(d::nat) < 100 \<Longrightarrow> 16 * (d div 10) + d mod 10 < 256"
proof -
  assume "d < 100"
  then have "d div 10 < 10" by simp
  moreover have "d mod 10 < 10" by simp
  ultimately show ?thesis by linarith
qed

lemma bcd_byte_nat: "0 \<le> d \<Longrightarrow> bcd_byte d = of_nat (16 * (nat d div 10) + nat d mod 10)"
proof -
  assume "0 \<le> d"
  then have "16 * (d div 10) + d mod 10 = int (16 * (nat d div 10) + nat d mod 10)"
    by (simp add: zdiv_int zmod_int)
  then show ?thesis
    unfolding bcd_byte_def by (simp only: of_int_of_nat_eq)
qed

lemma bcd_value_bcd_byte: "0 \<le> d \<Longrightarrow> d < 100 \<Longrightarrow> bcd_value (bcd_byte d) = nat d"
proof -
  assume d: "0 \<le> d" "d < 100"
  define n where "n = nat d"
  define N where "N = 16 * (n div 10) + n mod 10"
  have n: "n < 100" using d by (simp add: n_def)
  have m: "n mod 10 < 10" by simp
  have N: "N < 256" unfolding N_def by (rule bcd_small [OF n])
  have b: "bcd_byte d = of_nat N"
    unfolding N_def n_def by (rule bcd_byte_nat [OF d(1)])
  have u: "unat (of_nat N :: byte) = N"
    using N by (simp add: unat_of_nat)
  have q: "N div 16 = n div 10 \<and> N mod 16 = n mod 10"
    unfolding N_def by (rule nibbles_nat [OF m])
  have "bcd_value (bcd_byte d) = 10 * (n div 10) + n mod 10"
    by (simp add: bcd_value_def b u q)
  then show ?thesis by (simp add: n_def)
qed

lemma length_lbcd_set [simp]: "length (lbcd_set p n v img) = length img"
  by (induction n arbitrary: p v img) auto

lemma nth_lbcd_set_outside:
  "i < p \<or> p + n \<le> i \<Longrightarrow> lbcd_set p n v img ! i = img ! i"
  by (induction n arbitrary: p v img) auto

lemma lbcd_get_cong:
  "(\<And>i. p \<le> i \<Longrightarrow> i < p + n \<Longrightarrow> a ! i = b ! i) \<Longrightarrow> lbcd_get a p n = lbcd_get b p n"
  by (induction n arbitrary: p) auto

lemma lbcd_get_lbcd_set:
  "p + n \<le> length img \<Longrightarrow> 0 \<le> v \<Longrightarrow> lbcd_get (lbcd_set p n v img) p n = nat (v mod 100 ^ n)"
proof (induction n arbitrary: p v img)
  case 0
  then show ?case by simp
next
  case (Suc n)
  let ?img = "img[p := bcd_byte (v mod 100)]"
  have first: "lbcd_set (Suc p) n (v div 100) ?img ! p = bcd_byte (v mod 100)"
    using Suc.prems by (simp add: nth_lbcd_set_outside)
  have rest: "lbcd_get (lbcd_set (Suc p) n (v div 100) ?img) (Suc p) n = nat ((v div 100) mod 100 ^ n)"
    using Suc.prems by (intro Suc.IH) (auto simp: pos_imp_zdiv_nonneg_iff)
  have "lbcd_get (lbcd_set p (Suc n) v img) p (Suc n)
      = nat (v mod 100) + 100 * nat ((v div 100) mod 100 ^ n)"
    using Suc.prems by (simp add: first rest bcd_value_bcd_byte)
  also have "\<dots> = nat (v mod 100 + 100 * ((v div 100) mod 100 ^ n))"
    using Suc.prems by (simp add: nat_add_distrib nat_mult_distrib)
  also have "v mod 100 + 100 * ((v div 100) mod 100 ^ n) = v mod 100 ^ Suc n"
    by (simp add: zmod_zmult2_eq)
  finally show ?case .
qed

lemma lbcd_get_4_set:
  "p + 4 \<le> length img \<Longrightarrow> 0 \<le> v \<Longrightarrow> v < 100000000 \<Longrightarrow>
   lbcd_get (lbcd_set p 4 v img) p 4 = nat v"
  using lbcd_get_lbcd_set [of p 4 img v] by simp

lemma lbcd_get_update_outside:
  "i < p \<or> p + n \<le> i \<Longrightarrow> lbcd_get (img[i := b]) p n = lbcd_get img p n"
  by (rule lbcd_get_cong) auto

lemma lbcd_get_set_bitfield:
  "fst f < p \<or> p + n \<le> fst f \<Longrightarrow> lbcd_get (set_bitfield f v img) p n = lbcd_get img p n"
  by (cases f) (simp add: set_bitfield_def lbcd_get_update_outside)

lemma lbcd_get_set_u8:
  "i < p \<or> p + n \<le> i \<Longrightarrow> lbcd_get (set_u8 i v img) p n = lbcd_get img p n"
  by (simp add: set_u8_def lbcd_get_update_outside)

lemma lbcd_get_lbcd_set_other:
  "q + m \<le> p \<or> p + n \<le> q \<Longrightarrow> lbcd_get (lbcd_set q m v img) p n = lbcd_get img p n"
  by (rule lbcd_get_cong) (auto simp: nth_lbcd_set_outside)

lemma length_set_bitfield [simp]: "length (set_bitfield f v img) = length img"
  by (cases f) (simp add: set_bitfield_def)

lemma length_set_u8 [simp]: "length (set_u8 i v img) = length img"
  by (simp add: set_u8_def)

lemma get_bit_set_bitfield:
  "i < length img \<Longrightarrow> k < 8 \<Longrightarrow>
   get_bit (set_bitfield (i, k) v img) (j, l) =
     (if j = i then (if l = k then v else get_bit img (j, l)) else get_bit img (j, l))"
  by (auto simp: get_bit_def set_bitfield_def bit_set_bit_iff bit_unset_bit_iff)

lemma get_bit_set_u8:
  "i \<noteq> j \<Longrightarrow> get_bit (set_u8 i v img) (j, l) = get_bit img (j, l)"
  by (simp add: get_bit_def set_u8_def)

lemma get_bit_lbcd_set:
  "j < p \<or> p + n \<le> j \<Longrightarrow> get_bit (lbcd_set p n v img) (j, l) = get_bit img (j, l)"
  by (simp add: get_bit_def nth_lbcd_set_outside)

lemma nth_set_bitfield_other:
  "fst f \<noteq> j \<Longrightarrow> set_bitfield f v img ! j = img ! j"
  by (cases f) (simp add: set_bitfield_def)

lemma nth_set_u8_same: "i < length img \<Longrightarrow> set_u8 i v img ! i = of_nat v"
  by (simp add: set_u8_def)

lemma nth_set_u8_other: "j \<noteq> i \<Longrightarrow> set_u8 i v img ! j = img ! j"
  by (simp add: set_u8_def)

lemma nth_lbcd_set_first:
  "p < length img \<Longrightarrow> lbcd_set p (Suc n) v img ! p = bcd_byte (v mod 100)"
  by (simp add: nth_lbcd_set_outside)

lemma index_of_Some: "index_of xs x = Some i \<Longrightarrow> i < length xs \<and> xs ! i = x"
  by (induction xs arbitrary: i) (auto split: if_splits)

lemma index_of_mem: "x \<in> set xs \<Longrightarrow> \<exists>i. index_of xs x = Some i"
  by (induction xs) auto

subsection \<open>Tones\<close>

lemma encode_tone_valid:
  assumes "valid_tone cc spec" "length (TONES cc) \<le> 50" "length (DTCS cc) \<le> 205"
  shows "\<exists>code inverted. encode_tone cc memtone meminv spec img
            = Inr (set_bitfield meminv inverted (set_u8 memtone code img))
          \<and> code \<le> 255 \<and> decode_tone cc code inverted = Inr spec"
proof -
  obtain tmode tone pol where spec: "spec = (tmode, tone, pol)" by (cases spec)
  consider (none) "tmode = Some ''''" "tone = None" "pol = None"
    | (tone) t where "tmode = Some ''Tone''" "tone = Some t" "t \<in> set (TONES cc)" "pol = None"
    | (dtcs) t where "tmode = Some ''DTCS''" "tone = Some t" "t \<in> set (DTCS cc)"
        "pol = Some ''N'' \<or> pol = Some ''R''"
    using assms(1) by (auto simp: valid_tone_def spec split: option.splits)
  then show ?thesis
  proof cases
    case none
    then show ?thesis
      by (intro exI [of _ 0] exI [of _ False]) (simp add: encode_tone_def decode_tone_def spec)
  next
    case tone
    then obtain i where i: "index_of (TONES cc) t = Some i" using index_of_mem by fastforce
    then have r: "i < length (TONES cc)" "TONES cc ! i = t" using index_of_Some by fastforce+
    show ?thesis
      using tone i r assms(2)
      by (intro exI [of _ "i + 1"] exI [of _ False])
        (simp add: encode_tone_def decode_tone_def spec)
  next
    case dtcs
    then obtain i where i: "index_of (DTCS cc) t = Some i" using index_of_mem by fastforce
    then have r: "i < length (DTCS cc)" "DTCS cc ! i = t" using index_of_Some by fastforce+
    show ?thesis
      using dtcs i r assms(3)
      by (intro exI [of _ "i + 51"] exI [of _ "pol = Some ''R''"])
        (auto simp: encode_tone_def decode_tone_def spec)
  qed
qed

subsection \<open>Duplex and offset\<close>

lemma div10_exact: "0 \<le> x \<Longrightarrow> 10 dvd x \<Longrightarrow> div10 x * 10 = x \<and> 0 \<le> div10 x"
  by (auto simp: div10_def)

lemma div10_bound: "0 \<le> x \<Longrightarrow> x < 1000000000 \<Longrightarrow> div10 x < 100000000"
  by (simp add: div10_def)

lemma lbcd_get_div10:
  assumes "p + 4 \<le> length img" "0 \<le> x" "x < 1000000000" "10 dvd x"
  shows "int (lbcd_get (lbcd_set p 4 (div10 x) img) p 4) * 10 = x"
proof -
  have "lbcd_get (lbcd_set p 4 (div10 x) img) p 4 = nat (div10 x)"
    using assms div10_exact [of x] div10_bound [of x] by (intro lbcd_get_4_set) auto
  then show ?thesis using div10_exact [of x] assms by simp
qed

lemma dir_bits:
  "off + 10 < length Y \<Longrightarrow>
   get_bit (set_bitfield (offminus off) a (set_bitfield (offplus off) b Y)) (offminus off) = a
   \<and> get_bit (set_bitfield (offminus off) a (set_bitfield (offplus off) b Y)) (offplus off) = b"
  by (simp add: channel_fields get_bit_set_bitfield)

lemma dir_keep:
  "lbcd_get (set_bitfield (offminus off) a (set_bitfield (offplus off) b Y)) (txoffset off) 4
      = lbcd_get Y (txoffset off) 4"
  by (simp add: channel_fields lbcd_get_set_bitfield)

lemma valid_offset_cases:
  assumes "valid_offset mem"
  shows "duplex mem = '''' \<or> duplex mem = ''+'' \<or> duplex mem = ''-'' \<or> duplex mem = ''split''"
  using assms unfolding valid_offset_def by presburger

lemma duplex_roundtrip_none:
  assumes L: "off + 16 \<le> length img" and v: "valid_offset mem" and d: "duplex mem = ''''"
  defines "i3 \<equiv> encode_duplex off mem (lbcd_set (txoffset off) 4 (div10 (offset mem)) img)"
  shows "decode_duplex (get_bit i3 (offminus off)) (get_bit i3 (offplus off))
           (m\<lparr>freq := freq mem, offset := int (lbcd_get i3 (txoffset off) 4) * 10, duplex := ''''\<rparr>)
         = m\<lparr>freq := freq mem, offset := offset mem, duplex := duplex mem\<rparr>"
proof -
  let ?X = "lbcd_set (txoffset off) 4 (div10 (offset mem)) img"
  have LX: "off + 10 < length ?X" "txoffset off + 4 \<le> length img"
    using L by (simp_all add: channel_fields)
  have o: "0 \<le> offset mem" "offset mem \<le> 71000000" "10 dvd offset mem"
    using v d by (simp_all add: valid_offset_def)
  have i3: "i3 = set_bitfield (offminus off) False (set_bitfield (offplus off) False ?X)"
    by (simp add: i3_def encode_duplex_def d)
  have g: "int (lbcd_get i3 (txoffset off) 4) * 10 = offset mem"
    unfolding i3 dir_keep using LX(2) o by (intro lbcd_get_div10) auto
  have b: "get_bit i3 (offminus off) = False" "get_bit i3 (offplus off) = False"
    unfolding i3 using dir_bits [OF LX(1), where a = False and b = False] by simp_all
  show ?thesis
    unfolding g b using o d
    by (simp add: decode_duplex_def)
qed

lemma duplex_roundtrip_plus:
  assumes L: "off + 16 \<le> length img" and v: "valid_offset mem" and d: "duplex mem = ''+''"
  defines "i3 \<equiv> encode_duplex off mem (lbcd_set (txoffset off) 4 (div10 (offset mem)) img)"
  shows "decode_duplex (get_bit i3 (offminus off)) (get_bit i3 (offplus off))
           (m\<lparr>freq := freq mem, offset := int (lbcd_get i3 (txoffset off) 4) * 10, duplex := ''''\<rparr>)
         = m\<lparr>freq := freq mem, offset := offset mem, duplex := duplex mem\<rparr>"
proof -
  let ?X = "lbcd_set (txoffset off) 4 (div10 (offset mem)) img"
  have LX: "off + 10 < length ?X" "txoffset off + 4 \<le> length img"
    using L by (simp_all add: channel_fields)
  have o: "0 < offset mem" "offset mem \<le> 71000000" "10 dvd offset mem"
    using v d by (simp_all add: valid_offset_def)
  have i3: "i3 = set_bitfield (offminus off) False (set_bitfield (offplus off) True ?X)"
    by (simp add: i3_def encode_duplex_def d)
  have g: "int (lbcd_get i3 (txoffset off) 4) * 10 = offset mem"
    unfolding i3 dir_keep using LX(2) o by (intro lbcd_get_div10) auto
  have b: "get_bit i3 (offminus off) = False" "get_bit i3 (offplus off) = True"
    unfolding i3 using dir_bits [OF LX(1), where a = False and b = True] by simp_all
  show ?thesis
    unfolding g b using o d
    by (simp add: decode_duplex_def)
qed

lemma duplex_roundtrip_minus:
  assumes L: "off + 16 \<le> length img" and v: "valid_offset mem" and d: "duplex mem = ''-''"
  defines "i3 \<equiv> encode_duplex off mem (lbcd_set (txoffset off) 4 (div10 (offset mem)) img)"
  shows "decode_duplex (get_bit i3 (offminus off)) (get_bit i3 (offplus off))
           (m\<lparr>freq := freq mem, offset := int (lbcd_get i3 (txoffset off) 4) * 10, duplex := ''''\<rparr>)
         = m\<lparr>freq := freq mem, offset := offset mem, duplex := duplex mem\<rparr>"
proof -
  let ?X = "lbcd_set (txoffset off) 4 (div10 (offset mem)) img"
  have LX: "off + 10 < length ?X" "txoffset off + 4 \<le> length img"
    using L by (simp_all add: channel_fields)
  have o: "0 < offset mem" "offset mem \<le> 71000000" "10 dvd offset mem"
    using v d by (simp_all add: valid_offset_def)
  have i3: "i3 = set_bitfield (offminus off) True (set_bitfield (offplus off) False ?X)"
    by (simp add: i3_def encode_duplex_def d)
  have g: "int (lbcd_get i3 (txoffset off) 4) * 10 = offset mem"
    unfolding i3 dir_keep using LX(2) o by (intro lbcd_get_div10) auto
  have b: "get_bit i3 (offminus off) = True" "get_bit i3 (offplus off) = False"
    unfolding i3 using dir_bits [OF LX(1), where a = True and b = False] by simp_all
  show ?thesis
    unfolding g b using o d
    by (simp add: decode_duplex_def)
qed

lemma duplex_roundtrip_split_below:
  assumes L: "off + 16 \<le> length img" and v: "valid_offset mem" and d: "duplex mem = ''split''"
    and f: "10 dvd freq mem" and c: "offset mem < freq mem"
  defines "i3 \<equiv> encode_duplex off mem (lbcd_set (txoffset off) 4 (div10 (offset mem)) img)"
  shows "decode_duplex (get_bit i3 (offminus off)) (get_bit i3 (offplus off))
           (m\<lparr>freq := freq mem, offset := int (lbcd_get i3 (txoffset off) 4) * 10, duplex := ''''\<rparr>)
         = m\<lparr>freq := freq mem, offset := offset mem, duplex := duplex mem\<rparr>"
proof -
  let ?X = "lbcd_set (txoffset off) 4 (div10 (offset mem)) img"
  let ?Y = "set_bitfield (offminus off) True (set_bitfield (offplus off) False ?X)"
  have LX: "off + 10 < length ?X" "txoffset off + 4 \<le> length ?Y"
    using L by (simp_all add: channel_fields)
  have o: "71000000 < freq mem - offset mem" "freq mem - offset mem < 1000000000" "10 dvd (freq mem - offset mem)"
    using v d c f by (simp_all add: valid_offset_def)
  have i3: "i3 = lbcd_set (txoffset off) 4 (div10 (freq mem - offset mem)) ?Y"
    using c by (simp add: i3_def encode_duplex_def d)
  have g: "int (lbcd_get i3 (txoffset off) 4) * 10 = freq mem - offset mem"
    unfolding i3 using LX(2) o by (intro lbcd_get_div10) auto
  have k: "get_bit i3 (offminus off) = get_bit ?Y (offminus off)"
    "get_bit i3 (offplus off) = get_bit ?Y (offplus off)"
    unfolding i3 by (simp_all add: channel_fields get_bit_lbcd_set)
  have b: "get_bit i3 (offminus off) = True" "get_bit i3 (offplus off) = False"
    unfolding k using dir_bits [OF LX(1), where a = True and b = False] by simp_all
  show ?thesis
    unfolding g b using o d c
    by (simp add: decode_duplex_def)
qed

lemma duplex_roundtrip_split_above:
  assumes L: "off + 16 \<le> length img" and v: "valid_offset mem" and d: "duplex mem = ''split''"
    and f: "10 dvd freq mem" and c: "\<not> offset mem < freq mem"
  defines "i3 \<equiv> encode_duplex off mem (lbcd_set (txoffset off) 4 (div10 (offset mem)) img)"
  shows "decode_duplex (get_bit i3 (offminus off)) (get_bit i3 (offplus off))
           (m\<lparr>freq := freq mem, offset := int (lbcd_get i3 (txoffset off) 4) * 10, duplex := ''''\<rparr>)
         = m\<lparr>freq := freq mem, offset := offset mem, duplex := duplex mem\<rparr>"
proof -
  let ?X = "lbcd_set (txoffset off) 4 (div10 (offset mem)) img"
  let ?Y = "set_bitfield (offminus off) False (set_bitfield (offplus off) True ?X)"
  have LX: "off + 10 < length ?X" "txoffset off + 4 \<le> length ?Y"
    using L by (simp_all add: channel_fields)
  have o: "71000000 < offset mem - freq mem" "offset mem - freq mem < 1000000000" "10 dvd (offset mem - freq mem)"
    using v d c f by (simp_all add: valid_offset_def)
  have i3: "i3 = lbcd_set (txoffset off) 4 (div10 (offset mem - freq mem)) ?Y"
    using c by (simp add: i3_def encode_duplex_def d)
  have g: "int (lbcd_get i3 (txoffset off) 4) * 10 = offset mem - freq mem"
    unfolding i3 using LX(2) o by (intro lbcd_get_div10) auto
  have k: "get_bit i3 (offminus off) = get_bit ?Y (offminus off)"
    "get_bit i3 (offplus off) = get_bit ?Y (offplus off)"
    unfolding i3 by (simp_all add: channel_fields get_bit_lbcd_set)
  have b: "get_bit i3 (offminus off) = False" "get_bit i3 (offplus off) = True"
    unfolding k using dir_bits [OF LX(1), where a = False and b = True] by simp_all
  show ?thesis
    unfolding g b using o d c
    by (simp add: decode_duplex_def)
qed

lemma duplex_roundtrip:
  assumes "off + 16 \<le> length img" and "valid_offset mem" and "10 dvd freq mem"
  shows "decode_duplex
           (get_bit (encode_duplex off mem (lbcd_set (txoffset off) 4 (div10 (offset mem)) img))
              (offminus off))
           (get_bit (encode_duplex off mem (lbcd_set (txoffset off) 4 (div10 (offset mem)) img))
              (offplus off))
           (m\<lparr>freq := freq mem,
              offset := int (lbcd_get
                (encode_duplex off mem (lbcd_set (txoffset off) 4 (div10 (offset mem)) img))
                (txoffset off) 4) * 10,
              duplex := ''''\<rparr>)
         = m\<lparr>freq := freq mem, offset := offset mem, duplex := duplex mem\<rparr>"
  using valid_offset_cases [OF assms(2)]
    duplex_roundtrip_none [OF assms(1,2)] duplex_roundtrip_plus [OF assms(1,2)]
    duplex_roundtrip_minus [OF assms(1,2)]
    duplex_roundtrip_split_below [OF assms(1,2) _ assms(3)]
    duplex_roundtrip_split_above [OF assms(1,2) _ assms(3)]
  by blast

subsection \<open>The steps of set_memory\<close>

lemma length_encode_duplex [simp]: "length (encode_duplex off mem img) = length img"
  by (simp add: encode_duplex_def)

lemma nth_encode_duplex_low:
  "j < off + 5 \<Longrightarrow> encode_duplex off mem img ! j = img ! j"
  by (simp add: encode_duplex_def channel_fields nth_set_bitfield_other nth_lbcd_set_outside)

lemma set_memory_steps:
  assumes "get_special (number mem) = Inr off" and "\<not> empty mem"
  shows "set_memory cc mem r =
     (case index_of MODES (mode mem) of
        None \<Rightarrow> (Inl ValueError, r\<lparr>mmap := encode_duplex off mem
                    (lbcd_set (txoffset off) 4 (div10 (offset mem))
                      (lbcd_set (rxfreq off) 4 (div10 (freq mem)) (mmap r)))\<rparr>)
      | Some w \<Rightarrow>
          (case index_of SKIP_VALUES (skip mem) of
             None \<Rightarrow> (Inl ValueError, r\<lparr>mmap := set_bitfield (wide off) (w \<noteq> 0)
                    (encode_duplex off mem
                      (lbcd_set (txoffset off) 4 (div10 (offset mem))
                        (lbcd_set (rxfreq off) 4 (div10 (freq mem)) (mmap r))))\<rparr>)
           | Some s \<Rightarrow>
               (case encode_tone cc (txtone_byte off) (ttondinv off) (txtone mem)
                       (set_bitfield (noskip off) (s \<noteq> 0) (set_bitfield (wide off) (w \<noteq> 0)
                         (encode_duplex off mem
                           (lbcd_set (txoffset off) 4 (div10 (offset mem))
                             (lbcd_set (rxfreq off) 4 (div10 (freq mem)) (mmap r)))))) of
                  Inl e \<Rightarrow> (Inl e, r\<lparr>mmap := set_bitfield (noskip off) (s \<noteq> 0)
                         (set_bitfield (wide off) (w \<noteq> 0)
                           (encode_duplex off mem
                             (lbcd_set (txoffset off) 4 (div10 (offset mem))
                               (lbcd_set (rxfreq off) 4 (div10 (freq mem)) (mmap r)))))\<rparr>)
                | Inr i6 \<Rightarrow>
                    (case encode_tone cc (rxtone_byte off) (rtondinv off) (rxtone mem) i6 of
                       Inl e \<Rightarrow> (Inl e, r\<lparr>mmap := i6\<rparr>)
                     | Inr i7 \<Rightarrow> (Inr mem, r\<lparr>mmap := i7\<rparr>)))))"
  using assms
  by (simp add: set_memory_def Let_def split: option.splits sum.splits)

lemma length_tail_writes [simp]: "length (tail_writes off w s tc ti rc ri x) = length x"
  by (simp add: tail_writes_def)

lemma nth_tail_writes_low:
  "j < off + 4 \<or> (off + 4 < j \<and> j < off + 9) \<Longrightarrow> tail_writes off w s tc ti rc ri x ! j = x ! j"
  by (auto simp: tail_writes_def channel_fields nth_set_bitfield_other nth_set_u8_other)

lemma lbcd_get_tail_writes:
  "p = rxfreq off \<or> p = txoffset off \<Longrightarrow>
   lbcd_get (tail_writes off w s tc ti rc ri x) p 4 = lbcd_get x p 4"
  by (rule lbcd_get_cong) (auto simp: channel_fields nth_tail_writes_low)

lemma get_bit_tail_writes:
  assumes "off + 16 \<le> length x"
  shows "get_bit (tail_writes off w s tc ti rc ri x) (off + 10, k) =
     (if k = 7 then s else if k = 6 then w else if k = 5 then ti else if k = 3 then ri
      else get_bit x (off + 10, k))"
  using assms
  by (simp add: tail_writes_def channel_fields get_bit_set_bitfield get_bit_set_u8)

lemma tone_bytes_tail_writes:
  assumes "off + 16 \<le> length x"
  shows "tail_writes off w s tc ti rc ri x ! txtone_byte off = of_nat tc"
    and "tail_writes off w s tc ti rc ri x ! rxtone_byte off = of_nat rc"
  using assms
  by (simp_all add: tail_writes_def channel_fields nth_set_bitfield_other nth_set_u8_other
      nth_set_u8_same)

lemma get_special_bound: "get_special num = Inr off \<Longrightarrow> off + 16 \<le> MEM_SIZE"
  by (auto simp: get_special_def channel_attrs_def SPECIALS_def MEM_SIZE_def
      split: selector.splits option.splits if_splits list.splits)

lemma bcd_byte_not_FF: "0 \<le> d \<Longrightarrow> d < 100 \<Longrightarrow> bcd_byte d \<noteq> 0xFF"
proof
  assume d: "0 \<le> d" "d < 100" and e: "bcd_byte d = 0xFF"
  have "bcd_value (bcd_byte d) = nat d" using d by (rule bcd_value_bcd_byte)
  moreover have "bcd_value (0xFF :: byte) = 165" by (simp add: bcd_value_def)
  ultimately show False using d e by simp
qed

lemma index_of_MODES:
  "m \<in> set MODES \<Longrightarrow> \<exists>w. index_of MODES m = Some w \<and> MODES ! (if w \<noteq> 0 then 1 else 0) = m"
  by (auto simp: MODES_def)

lemma index_of_SKIP_VALUES:
  "s \<in> set SKIP_VALUES \<Longrightarrow>
   \<exists>w. index_of SKIP_VALUES s = Some w \<and> SKIP_VALUES ! (if w \<noteq> 0 then 1 else 0) = s"
  by (auto simp: SKIP_VALUES_def)

subsection \<open>Encoding a channel and decoding it again\<close>

lemma set_then_get_memory:
  assumes sel: "get_special (number mem) = Inr off" "get_special num = Inr off"
      and m0: "(case num of
         Name s \<Rightarrow> (case map_of SPECIALS s of None \<Rightarrow> Inl KeyError
                     | Some v \<Rightarrow> Inr ((Memory cc)\<lparr>number := Num v, extd_number := s\<rparr>))
       | Num n \<Rightarrow> Inr ((Memory cc)\<lparr>number := Num n\<rparr>)) = Inr m0"
      and len: "length (mmap r) = MEM_SIZE"
      and ne: "\<not> empty mem"
      and fr: "0 \<le> freq mem" "freq mem < 1000000000" "10 dvd freq mem"
      and md: "mode mem \<in> set MODES" "skip mem \<in> set SKIP_VALUES"
      and tn: "valid_tone cc (txtone mem)" "valid_tone cc (rxtone mem)"
      and tb: "length (TONES cc) \<le> 50" "length (DTCS cc) \<le> 205"
  defines "x \<equiv> encode_duplex off mem (lbcd_set (txoffset off) 4 (div10 (offset mem))
                 (lbcd_set (rxfreq off) 4 (div10 (freq mem)) (mmap r)))"
  shows "fst (set_memory cc mem r) = Inr mem
     \<and> get_memory cc num (snd (set_memory cc mem r)) =
       (Inr (decode_duplex (get_bit x (offminus off)) (get_bit x (offplus off))
               (m0\<lparr>freq := freq mem, offset := int (lbcd_get x (txoffset off) 4) * 10,
                   duplex := ''''\<rparr>)
             \<lparr>mode := mode mem, skip := skip mem, txtone := txtone mem, rxtone := rxtone mem\<rparr>),
        snd (set_memory cc mem r))"
proof -
  define i1 where "i1 = lbcd_set (rxfreq off) 4 (div10 (freq mem)) (mmap r)"
  have x_def: "x = encode_duplex off mem (lbcd_set (txoffset off) 4 (div10 (offset mem)) i1)"
    by (simp add: x_def i1_def)
  have L: "off + 16 \<le> length (mmap r)"
    using get_special_bound [OF sel(1)] len by simp
  have L1: "off + 16 \<le> length i1" using L by (simp add: i1_def)
  have Lx: "off + 16 \<le> length x" using L by (simp add: x_def i1_def)
  obtain w where w: "index_of MODES (mode mem) = Some w"
    "MODES ! (if w \<noteq> 0 then 1 else 0) = mode mem"
    using index_of_MODES [OF md(1)] by blast
  obtain s where s: "index_of SKIP_VALUES (skip mem) = Some s"
    "SKIP_VALUES ! (if s \<noteq> 0 then 1 else 0) = skip mem"
    using index_of_SKIP_VALUES [OF md(2)] by blast
  define i5 where "i5 = set_bitfield (noskip off) (s \<noteq> 0) (set_bitfield (wide off) (w \<noteq> 0) x)"
  obtain tc ti where t: "encode_tone cc (txtone_byte off) (ttondinv off) (txtone mem) i5
        = Inr (set_bitfield (ttondinv off) ti (set_u8 (txtone_byte off) tc i5))"
      "tc \<le> 255" "decode_tone cc tc ti = Inr (txtone mem)"
    using encode_tone_valid [OF tn(1) tb] by blast
  define i6 where "i6 = set_bitfield (ttondinv off) ti (set_u8 (txtone_byte off) tc i5)"
  obtain rc ri where rr: "encode_tone cc (rxtone_byte off) (rtondinv off) (rxtone mem) i6
        = Inr (set_bitfield (rtondinv off) ri (set_u8 (rxtone_byte off) rc i6))"
      "rc \<le> 255" "decode_tone cc rc ri = Inr (rxtone mem)"
    using encode_tone_valid [OF tn(2) tb] by blast
  define I where "I = tail_writes off (w \<noteq> 0) (s \<noteq> 0) tc ti rc ri x"
  have I: "I = set_bitfield (rtondinv off) ri (set_u8 (rxtone_byte off) rc i6)"
    by (simp add: I_def tail_writes_def i6_def i5_def)
  have sm: "set_memory cc mem r = (Inr mem, r\<lparr>mmap := I\<rparr>)"
    using w(1) s(1) t(1) rr(1)
    unfolding set_memory_steps [OF sel(1) ne] I i6_def i5_def x_def i1_def
    by simp
  have F0: "I ! off \<noteq> 0xFF"
  proof -
    have "I ! off = x ! off" unfolding I_def by (rule nth_tail_writes_low) simp
    also have "\<dots> = lbcd_set (txoffset off) 4 (div10 (offset mem)) i1 ! off"
      unfolding x_def by (rule nth_encode_duplex_low) simp
    also have "\<dots> = i1 ! off"
      by (rule nth_lbcd_set_outside) (simp add: channel_fields)
    also have "\<dots> = bcd_byte (div10 (freq mem) mod 100)"
      unfolding i1_def rxfreq_def using L nth_lbcd_set_first [of off "mmap r" 3] by simp
    finally show ?thesis by (simp add: bcd_byte_not_FF)
  qed
  have F1: "int (lbcd_get I (rxfreq off) 4) * 10 = freq mem"
  proof -
    have "lbcd_get I (rxfreq off) 4 = lbcd_get x (rxfreq off) 4"
      unfolding I_def by (rule lbcd_get_tail_writes) simp
    also have "\<dots> = lbcd_get (lbcd_set (txoffset off) 4 (div10 (offset mem)) i1) (rxfreq off) 4"
      unfolding x_def by (rule lbcd_get_cong) (simp add: nth_encode_duplex_low channel_fields)
    also have "\<dots> = lbcd_get i1 (rxfreq off) 4"
      by (rule lbcd_get_lbcd_set_other) (simp add: channel_fields)
    finally have "lbcd_get I (rxfreq off) 4 = lbcd_get i1 (rxfreq off) 4" .
    then show ?thesis
      unfolding i1_def using lbcd_get_div10 [of "rxfreq off" "mmap r" "freq mem"] L fr
      by (simp add: channel_fields)
  qed
  have B: "get_bit I (offminus off) = get_bit x (offminus off)"
    "get_bit I (offplus off) = get_bit x (offplus off)"
    "get_bit I (wide off) = (w \<noteq> 0)" "get_bit I (noskip off) = (s \<noteq> 0)"
    "get_bit I (ttondinv off) = ti" "get_bit I (rtondinv off) = ri"
    unfolding I_def channel_fields by (simp_all add: get_bit_tail_writes [OF Lx])
  have O: "lbcd_get I (txoffset off) 4 = lbcd_get x (txoffset off) 4"
    unfolding I_def by (rule lbcd_get_tail_writes) simp
  have T: "unat (I ! txtone_byte off) = tc" "unat (I ! rxtone_byte off) = rc"
    unfolding I_def tone_bytes_tail_writes [OF Lx] using t(2) rr(2)
    by (simp_all add: unat_of_nat)
  have M: "MODES ! (if get_bit I (wide off) then 1 else 0) = mode mem"
    "SKIP_VALUES ! (if get_bit I (noskip off) then 1 else 0) = skip mem"
    unfolding B using w(2) s(2) by simp_all
  have D: "decode_tone cc (unat (I ! txtone_byte off)) (get_bit I (ttondinv off)) = Inr (txtone mem)"
    "decode_tone cc (unat (I ! rxtone_byte off)) (get_bit I (rtondinv off)) = Inr (rxtone mem)"
    unfolding B T using t(3) rr(3) by simp_all
  have gm: "get_memory cc num (r\<lparr>mmap := I\<rparr>) =
     (Inr (decode_duplex (get_bit x (offminus off)) (get_bit x (offplus off))
               (m0\<lparr>freq := freq mem, offset := int (lbcd_get x (txoffset off) 4) * 10,
                   duplex := ''''\<rparr>)
             \<lparr>mode := mode mem, skip := skip mem, txtone := txtone mem, rxtone := rxtone mem\<rparr>),
      r\<lparr>mmap := I\<rparr>)"
    unfolding get_memory_def sel(2) m0
    by (simp add: Let_def F0 F1 B(1,2) O M D)
  show ?thesis
    by (simp add: sm gm)
qed


lemma duplex_split_within_band:
  assumes L: "off + 16 \<le> length img" and d: "duplex mem = ''split''"
    and c: "freq mem < offset mem" "offset mem - freq mem \<le> 71000000"
      "10 dvd (offset mem - freq mem)"
  defines "i3 \<equiv> encode_duplex off mem (lbcd_set (txoffset off) 4 (div10 (offset mem)) img)"
  shows "decode_duplex (get_bit i3 (offminus off)) (get_bit i3 (offplus off))
           (m\<lparr>freq := freq mem, offset := int (lbcd_get i3 (txoffset off) 4) * 10, duplex := ''''\<rparr>)
         = m\<lparr>freq := freq mem, offset := offset mem - freq mem, duplex := ''+''\<rparr>"
proof -
  let ?X = "lbcd_set (txoffset off) 4 (div10 (offset mem)) img"
  let ?Y = "set_bitfield (offminus off) False (set_bitfield (offplus off) True ?X)"
  have LX: "off + 10 < length ?X" "txoffset off + 4 \<le> length ?Y"
    using L by (simp_all add: channel_fields)
  have i3: "i3 = lbcd_set (txoffset off) 4 (div10 (offset mem - freq mem)) ?Y"
    using c by (simp add: i3_def encode_duplex_def d)
  have g: "int (lbcd_get i3 (txoffset off) 4) * 10 = offset mem - freq mem"
    unfolding i3 using LX(2) c by (intro lbcd_get_div10) auto
  have k: "get_bit i3 (offminus off) = get_bit ?Y (offminus off)"
    "get_bit i3 (offplus off) = get_bit ?Y (offplus off)"
    unfolding i3 by (simp_all add: channel_fields get_bit_lbcd_set)
  have b: "get_bit i3 (offminus off) = False" "get_bit i3 (offplus off) = True"
    unfolding k using dir_bits [OF LX(1), where a = False and b = True] by simp_all
  show ?thesis
    unfolding g b using c
    by (simp add: decode_duplex_def)
qed

lemma stock_tables:
  "length (TONES stock) \<le> 50" "length (DTCS stock) \<le> 205"
  "valid_tone stock (Some ''Tone'', Some 885, None)"
  "valid_tone stock (Some ''DTCS'', Some 23, Some ''R'')"
  "valid_tone stock (Some '''', None, None)"
  by (simp_all add: stock_def DTCS_def valid_tone_def)

lemma sample_fields:
  "number sample = Num 1" "\<not> empty sample" "freq sample = 145012500"
  "offset sample = 600000" "duplex sample = ''-''"
  "mode sample = ''FM''" "skip sample = ''''"
  "txtone sample = (Some ''Tone'', Some 885, None)"
  "rxtone sample = (Some ''DTCS'', Some 23, Some ''R'')"
  by (simp_all add: sample_def stock_def)

lemma channel_1: "get_special (Num 1) = Inr 16"
  by (simp add: get_special_def)

lemma blank_length: "length (mmap blank) = MEM_SIZE"
  by (simp add: blank_def MEM_SIZE_def)




text \<open>
  Claim C1, as amended. For a channel value that is not empty, whose frequency is a
  multiple of 10 Hz below 1 GHz, whose offset fits its duplex (see \<open>valid_offset\<close>), whose
  bandwidth and skip are values of the driver and whose tones are drawn from the tables,
  \<open>set_memory\<close> succeeds and \<open>get_memory\<close> on the resulting image returns the same
  frequency, offset, duplex, bandwidth, skip and tones. Split duplex is covered when the
  two frequencies are more than 71 MHz apart. The tables are those of any instance with at
  most 50 analog tones and 205 digital codes, so that every code fits the tone byte.
\<close>

theorem set_get_memory_roundtrip:
  assumes sel: "get_special (number mem) = Inr off" "get_special num = Inr off"
      and key: "\<forall>s. num = Name s \<longrightarrow> map_of SPECIALS s \<noteq> None"
      and len: "length (mmap r) = MEM_SIZE"
      and ne: "\<not> empty mem"
      and fr: "0 \<le> freq mem" "freq mem < 1000000000" "10 dvd freq mem"
      and vo: "valid_offset mem"
      and md: "mode mem \<in> set MODES" "skip mem \<in> set SKIP_VALUES"
      and tn: "valid_tone cc (txtone mem)" "valid_tone cc (rxtone mem)"
      and tb: "length (TONES cc) \<le> 50" "length (DTCS cc) \<le> 205"
  shows "\<exists>r' mem'. set_memory cc mem r = (Inr mem, r') \<and> get_memory cc num r' = (Inr mem', r')
           \<and> freq mem' = freq mem \<and> offset mem' = offset mem \<and> duplex mem' = duplex mem
           \<and> mode mem' = mode mem \<and> skip mem' = skip mem
           \<and> txtone mem' = txtone mem \<and> rxtone mem' = rxtone mem"
proof -
  obtain m0 where m0: "(case num of
         Name s \<Rightarrow> (case map_of SPECIALS s of None \<Rightarrow> Inl KeyError
                     | Some v \<Rightarrow> Inr ((Memory cc)\<lparr>number := Num v, extd_number := s\<rparr>))
       | Num n \<Rightarrow> Inr ((Memory cc)\<lparr>number := Num n\<rparr>)) = Inr m0"
    using key by (cases num) auto
  have L: "off + 16 \<le> length (lbcd_set (rxfreq off) 4 (div10 (freq mem)) (mmap r))"
    using get_special_bound [OF sel(1)] len by simp
  note g = set_then_get_memory [OF sel m0 len ne fr md tn tb]
  note d = duplex_roundtrip [OF L vo fr(3), of m0]
  show ?thesis
    by (rule exI [of _ "snd (set_memory cc mem r)"],
        rule exI [of _ "m0\<lparr>freq := freq mem, offset := offset mem, duplex := duplex mem,
            mode := mode mem, skip := skip mem, txtone := txtone mem, rxtone := rxtone mem\<rparr>"])
      (use g d in \<open>simp add: prod_eq_iff\<close>)
qed

theorem set_get_memory_roundtrip_witness:
  "(\<exists>r' mem'. set_memory stock sample blank = (Inr sample, r')
      \<and> get_memory stock (Num 1) r' = (Inr mem', r')
      \<and> freq mem' = 145012500 \<and> offset mem' = 600000 \<and> duplex mem' = ''-''
      \<and> mode mem' = ''FM'' \<and> skip mem' = ''''
      \<and> txtone mem' = (Some ''Tone'', Some 885, None)
      \<and> rxtone mem' = (Some ''DTCS'', Some 23, Some ''R''))
   \<and> (\<exists>r' mem'. set_memory stock
            (sample\<lparr>number := Num (- 1), offset := 445012500, duplex := ''split''\<rparr>) blank
          = (Inr (sample\<lparr>number := Num (- 1), offset := 445012500, duplex := ''split''\<rparr>), r')
      \<and> get_memory stock (Name ''RLY'') r' = (Inr mem', r')
      \<and> freq mem' = 145012500 \<and> offset mem' = 445012500 \<and> duplex mem' = ''split''
      \<and> mode mem' = ''FM'' \<and> skip mem' = ''''
      \<and> txtone mem' = (Some ''Tone'', Some 885, None)
      \<and> rxtone mem' = (Some ''DTCS'', Some 23, Some ''R''))"
proof -
  let ?s = "sample\<lparr>number := Num (- 1), offset := 445012500, duplex := ''split''\<rparr>"
  have rly: "get_special (Num (- 1)) = Inr 0x0170" "get_special (Name ''RLY'') = Inr 0x0170"
    by code_simp+
  have a: "\<exists>r' mem'. set_memory stock sample blank = (Inr sample, r')
      \<and> get_memory stock (Num 1) r' = (Inr mem', r')
      \<and> freq mem' = freq sample \<and> offset mem' = offset sample \<and> duplex mem' = duplex sample
      \<and> mode mem' = mode sample \<and> skip mem' = skip sample
      \<and> txtone mem' = txtone sample \<and> rxtone mem' = rxtone sample"
    by (rule set_get_memory_roundtrip [where off = 16])
      (simp_all add: sample_fields stock_tables MODES_def SKIP_VALUES_def channel_1 blank_length
        valid_offset_def)
  have b: "\<exists>r' mem'. set_memory stock ?s blank = (Inr ?s, r')
      \<and> get_memory stock (Name ''RLY'') r' = (Inr mem', r')
      \<and> freq mem' = freq ?s \<and> offset mem' = offset ?s \<and> duplex mem' = duplex ?s
      \<and> mode mem' = mode ?s \<and> skip mem' = skip ?s
      \<and> txtone mem' = txtone ?s \<and> rxtone mem' = rxtone ?s"
    by (rule set_get_memory_roundtrip [where off = "0x0170"])
      (simp_all add: sample_fields stock_tables MODES_def SKIP_VALUES_def rly blank_length
        valid_offset_def SPECIALS_def)
  show ?thesis
    using a b by (simp add: sample_fields)
qed

text \<open>
  The claim as written, for every duplex value, does not hold: a split channel whose
  transmit frequency is within 71 MHz of the receive frequency is stored as a shift, and
  comes back as duplex "+" with the difference as offset.
\<close>

theorem split_within_band_counterexample:
  "fst (set_memory stock (sample\<lparr>offset := 146012500, duplex := ''split''\<rparr>) blank)
     = Inr (sample\<lparr>offset := 146012500, duplex := ''split''\<rparr>)
   \<and> fst (get_memory stock (Num 1)
          (snd (set_memory stock (sample\<lparr>offset := 146012500, duplex := ''split''\<rparr>) blank)))
     = Inr (sample\<lparr>offset := 1000000, duplex := ''+''\<rparr>)"
proof -
  let ?m = "sample\<lparr>offset := 146012500, duplex := ''split''\<rparr>"
  let ?fresh = "(Memory stock)\<lparr>number := Num 1\<rparr>"
  have s: "get_special (number ?m) = Inr 16" by (simp add: sample_fields channel_1)
  have m0: "(case Num 1 of
         Name s \<Rightarrow> (case map_of SPECIALS s of None \<Rightarrow> Inl KeyError
                     | Some v \<Rightarrow> Inr ((Memory stock)\<lparr>number := Num v, extd_number := s\<rparr>))
       | Num n \<Rightarrow> Inr ((Memory stock)\<lparr>number := Num n\<rparr>)) = Inr ?fresh"
    by simp
  have L: "16 + 16 \<le> length (lbcd_set (rxfreq 16) 4 (div10 (freq ?m)) (mmap blank))"
    by (simp add: blank_def)
  have g': "fst (set_memory stock ?m blank) = Inr ?m
     \<and> get_memory stock (Num 1) (snd (set_memory stock ?m blank)) =
       (Inr (decode_duplex
               (get_bit (encode_duplex 16 ?m (lbcd_set (txoffset 16) 4 (div10 (offset ?m))
                  (lbcd_set (rxfreq 16) 4 (div10 (freq ?m)) (mmap blank)))) (offminus 16))
               (get_bit (encode_duplex 16 ?m (lbcd_set (txoffset 16) 4 (div10 (offset ?m))
                  (lbcd_set (rxfreq 16) 4 (div10 (freq ?m)) (mmap blank)))) (offplus 16))
               (?fresh\<lparr>freq := freq ?m,
                    offset := int (lbcd_get (encode_duplex 16 ?m (lbcd_set (txoffset 16) 4 (div10 (offset ?m))
                  (lbcd_set (rxfreq 16) 4 (div10 (freq ?m)) (mmap blank)))) (txoffset 16) 4) * 10,
                   duplex := ''''\<rparr>)
             \<lparr>mode := mode ?m, skip := skip ?m, txtone := txtone ?m, rxtone := rxtone ?m\<rparr>),
        snd (set_memory stock ?m blank))"
    by (rule set_then_get_memory [OF s channel_1 m0 blank_length])
      (simp_all add: sample_fields stock_tables MODES_def SKIP_VALUES_def)
  have d: "decode_duplex
               (get_bit (encode_duplex 16 ?m (lbcd_set (txoffset 16) 4 (div10 (offset ?m))
                  (lbcd_set (rxfreq 16) 4 (div10 (freq ?m)) (mmap blank)))) (offminus 16))
               (get_bit (encode_duplex 16 ?m (lbcd_set (txoffset 16) 4 (div10 (offset ?m))
                  (lbcd_set (rxfreq 16) 4 (div10 (freq ?m)) (mmap blank)))) (offplus 16))
               (?fresh\<lparr>freq := freq ?m,
                    offset := int (lbcd_get (encode_duplex 16 ?m (lbcd_set (txoffset 16) 4 (div10 (offset ?m))
                  (lbcd_set (rxfreq 16) 4 (div10 (freq ?m)) (mmap blank)))) (txoffset 16) 4) * 10,
                   duplex := ''''\<rparr>)
      = ?fresh\<lparr>freq := freq ?m, offset := offset ?m - freq ?m, duplex := ''+''\<rparr>"
    by (rule duplex_split_within_band [OF L]) (simp_all add: sample_fields)
  show ?thesis
    using g' unfolding d by (simp add: sample_def)
qed

subsection \<open>What set_memory leaves alone\<close>

lemma unchanged_outside_refl: "unchanged_outside off img img"
  by (simp add: unchanged_outside_def)

lemma unchanged_outside_trans:
  "unchanged_outside off a b \<Longrightarrow> unchanged_outside off b c \<Longrightarrow> unchanged_outside off a c"
  by (simp add: unchanged_outside_def)

lemma unchanged_outside_update:
  "off \<le> i \<Longrightarrow> i < off + 16 \<Longrightarrow> unchanged_outside off img (img[i := b])"
  by (auto simp: unchanged_outside_def nth_list_update)

lemma unchanged_outside_lbcd_set:
  "off \<le> p \<Longrightarrow> p + n \<le> off + 16 \<Longrightarrow> unchanged_outside off img (lbcd_set p n v img)"
proof (induction n arbitrary: p v img)
  case 0
  then show ?case by (simp add: unchanged_outside_refl)
next
  case (Suc n)
  have "unchanged_outside off img (img[p := bcd_byte (v mod 100)])"
    using Suc.prems by (intro unchanged_outside_update) auto
  moreover have "unchanged_outside off (img[p := bcd_byte (v mod 100)])
      (lbcd_set (Suc p) n (v div 100) (img[p := bcd_byte (v mod 100)]))"
    using Suc.prems by (intro Suc.IH) auto
  ultimately show ?case
    by (simp add: unchanged_outside_trans)
qed

lemma unchanged_outside_set_raw:
  "off \<le> p \<Longrightarrow> p + length bs \<le> off + 16 \<Longrightarrow> unchanged_outside off img (set_raw p bs img)"
proof (induction bs arbitrary: p img)
  case Nil
  then show ?case by (simp add: unchanged_outside_refl)
next
  case (Cons b bs)
  have "unchanged_outside off img (img[p := b])"
    using Cons.prems by (intro unchanged_outside_update) auto
  moreover have "unchanged_outside off (img[p := b]) (set_raw (Suc p) bs (img[p := b]))"
    using Cons.prems by (intro Cons.IH) auto
  ultimately show ?case
    by (simp add: unchanged_outside_trans)
qed

lemma unchanged_outside_set_bitfield:
  "off \<le> fst f \<Longrightarrow> fst f < off + 16 \<Longrightarrow> unchanged_outside off img (set_bitfield f v img)"
  by (cases f) (simp add: set_bitfield_def unchanged_outside_update)

lemma unchanged_outside_set_u8:
  "off \<le> i \<Longrightarrow> i < off + 16 \<Longrightarrow> unchanged_outside off img (set_u8 i v img)"
  by (simp add: set_u8_def unchanged_outside_update)

lemma unchanged_outside_encode_duplex:
  "unchanged_outside off img (encode_duplex off mem img)"
  unfolding encode_duplex_def
  by (auto intro!: unchanged_outside_refl
      unchanged_outside_trans [OF unchanged_outside_set_bitfield unchanged_outside_set_bitfield]
      unchanged_outside_trans [OF unchanged_outside_trans [OF unchanged_outside_set_bitfield unchanged_outside_set_bitfield] unchanged_outside_lbcd_set]
      simp: channel_fields)

lemma unchanged_outside_encode_tone:
  assumes "encode_tone cc memtone meminv spec img = Inr img'"
    and "off \<le> memtone" "memtone < off + 16" "off \<le> fst meminv" "fst meminv < off + 16"
  shows "unchanged_outside off img img'"
proof -
  have "unchanged_outside off img (set_bitfield meminv b (set_u8 memtone v img))" for b v
    using assms(2-5)
    by (intro unchanged_outside_trans [OF unchanged_outside_set_u8 unchanged_outside_set_bitfield])
  then show ?thesis
    using assms(1)
    by (auto simp: encode_tone_def split: prod.splits if_splits option.splits)
qed

lemma set_memory_unchanged_outside:
  assumes "get_special (number mem) = Inr off" and "set_memory cc mem r = (res, r')"
  shows "unchanged_outside off (mmap r) (mmap r') \<and> bw_shift r' = bw_shift r"
proof (cases "empty mem")
  case True
  then show ?thesis
    using assms by (auto simp: set_memory_def intro!: unchanged_outside_set_raw)
next
  case False
  define i1 where "i1 = lbcd_set (rxfreq off) 4 (div10 (freq mem)) (mmap r)"
  define i2 where "i2 = lbcd_set (txoffset off) 4 (div10 (offset mem)) i1"
  define i3 where "i3 = encode_duplex off mem i2"
  have u1: "unchanged_outside off (mmap r) i1"
    unfolding i1_def by (intro unchanged_outside_lbcd_set) (simp_all add: channel_fields)
  have u2: "unchanged_outside off i1 i2"
    unfolding i2_def by (intro unchanged_outside_lbcd_set) (simp_all add: channel_fields)
  have u3: "unchanged_outside off i2 i3"
    unfolding i3_def by (rule unchanged_outside_encode_duplex)
  have u13: "unchanged_outside off (mmap r) i3"
    using u1 u2 u3 unchanged_outside_trans by blast
  have sm: "set_memory cc mem r =
     (case index_of MODES (mode mem) of
        None \<Rightarrow> (Inl ValueError, r\<lparr>mmap := i3\<rparr>)
      | Some w \<Rightarrow>
          (case index_of SKIP_VALUES (skip mem) of
             None \<Rightarrow> (Inl ValueError, r\<lparr>mmap := set_bitfield (wide off) (w \<noteq> 0) i3\<rparr>)
           | Some s \<Rightarrow>
               (case encode_tone cc (txtone_byte off) (ttondinv off) (txtone mem)
                       (set_bitfield (noskip off) (s \<noteq> 0) (set_bitfield (wide off) (w \<noteq> 0) i3)) of
                  Inl e \<Rightarrow> (Inl e, r\<lparr>mmap := set_bitfield (noskip off) (s \<noteq> 0)
                                                 (set_bitfield (wide off) (w \<noteq> 0) i3)\<rparr>)
                | Inr i6 \<Rightarrow>
                    (case encode_tone cc (rxtone_byte off) (rtondinv off) (rxtone mem) i6 of
                       Inl e \<Rightarrow> (Inl e, r\<lparr>mmap := i6\<rparr>)
                     | Inr i7 \<Rightarrow> (Inr mem, r\<lparr>mmap := i7\<rparr>)))))"
    using assms(1) False
    by (simp add: set_memory_def Let_def i1_def i2_def i3_def split: option.splits sum.splits)
  show ?thesis
  proof (cases "index_of MODES (mode mem)")
    case None
    then show ?thesis using sm assms(2) u13 by auto
  next
    case (Some w)
    define i4 where "i4 = set_bitfield (wide off) (w \<noteq> 0) i3"
    have u4: "unchanged_outside off (mmap r) i4"
      unfolding i4_def
      by (rule unchanged_outside_trans [OF u13], rule unchanged_outside_set_bitfield)
        (simp_all add: channel_fields)
    show ?thesis
    proof (cases "index_of SKIP_VALUES (skip mem)")
      case None
      then show ?thesis using sm assms(2) u4 Some by (auto simp: i4_def)
    next
      case (Some s)
      define i5 where "i5 = set_bitfield (noskip off) (s \<noteq> 0) i4"
      have u5: "unchanged_outside off (mmap r) i5"
        unfolding i5_def
        by (rule unchanged_outside_trans [OF u4], rule unchanged_outside_set_bitfield)
          (simp_all add: channel_fields)
      show ?thesis
      proof (cases "encode_tone cc (txtone_byte off) (ttondinv off) (txtone mem) i5")
        case (Inl e)
        then show ?thesis
          using sm assms(2) u5 Some \<open>index_of MODES (mode mem) = Some w\<close>
          by (auto simp: i4_def i5_def)
      next
        case (Inr i6)
        have u6: "unchanged_outside off (mmap r) i6"
          by (rule unchanged_outside_trans [OF u5], rule unchanged_outside_encode_tone [OF Inr])
            (simp_all add: channel_fields)
        show ?thesis
        proof (cases "encode_tone cc (rxtone_byte off) (rtondinv off) (rxtone mem) i6")
          case (Inl e)
          then show ?thesis
            using sm assms(2) u6 Some Inr \<open>index_of MODES (mode mem) = Some w\<close>
            by (auto simp: i4_def i5_def)
        next
          case (Inr i7)
          have u7: "unchanged_outside off (mmap r) i7"
            by (rule unchanged_outside_trans [OF u6], rule unchanged_outside_encode_tone [OF Inr])
              (simp_all add: channel_fields)
          show ?thesis
            using sm assms(2) u7 Some Inr
              \<open>encode_tone cc (txtone_byte off) (ttondinv off) (txtone mem) i5 = Inr i6\<close>
              \<open>index_of MODES (mode mem) = Some w\<close>
            by (auto simp: i4_def i5_def)
        qed
      qed
    qed
  qed
qed

lemma get_special_valid:
  assumes "(\<exists>n. num = Num n \<and> 1 \<le> n \<and> n \<le> 20) \<or> num = Num (- 2) \<or> num = Num (- 1)
           \<or> num = Name ''EMG'' \<or> num = Name ''RLY''"
  shows "\<exists>off. get_special num = Inr off \<and> off + 16 \<le> MEM_SIZE"
proof -
  have e: "get_special (Num (- 2)) = Inr 0" "get_special (Num (- 1)) = Inr 0x0170"
    "get_special (Name ''EMG'') = Inr 0" "get_special (Name ''RLY'') = Inr 0x0170"
    by code_simp+
  have n: "get_special (Num n) = Inr (16 + 16 * nat (n - 1))" if "1 \<le> n" "n \<le> 20" for n
    using that by (simp add: get_special_def)
  show ?thesis
    using assms e n by (auto simp: MEM_SIZE_def)
qed

text \<open>
  Claim C8. For channel numbers 1 to 20 and for the two special channels, by number or by
  name, a call of \<open>set_memory\<close> that returns without error leaves the length of the image
  and every byte outside the 16-byte record of the selected channel as they were.
\<close>

theorem set_memory_changes_only_its_channel:
  assumes sel: "(\<exists>n. number mem = Num n \<and> 1 \<le> n \<and> n \<le> 20) \<or> number mem = Num (- 2)
           \<or> number mem = Num (- 1) \<or> number mem = Name ''EMG'' \<or> number mem = Name ''RLY''"
      and ok: "set_memory cc mem r = (Inr mem', r')"
  shows "\<exists>off. get_special (number mem) = Inr off \<and> off + 16 \<le> MEM_SIZE
           \<and> length (mmap r') = length (mmap r)
           \<and> (\<forall>i. i < off \<or> off + 16 \<le> i \<longrightarrow> mmap r' ! i = mmap r ! i)"
proof -
  obtain off where off: "get_special (number mem) = Inr off" "off + 16 \<le> MEM_SIZE"
    using get_special_valid [OF sel] by blast
  have "length (mmap r') = length (mmap r)
       \<and> (\<forall>i. i < off \<or> off + 16 \<le> i \<longrightarrow> mmap r' ! i = mmap r ! i)"
    using set_memory_unchanged_outside [OF off(1) ok] by (simp add: unchanged_outside_def)
  then show ?thesis using off by blast
qed

lemma sample_succeeds: "fst (set_memory stock sample blank) = Inr sample"
  by (rule set_then_get_memory [where num = "Num 1" and off = 16, THEN conjunct1])
    (simp_all add: sample_fields stock_tables MODES_def SKIP_VALUES_def channel_1 blank_length)

theorem set_memory_changes_only_its_channel_witness:
  "fst (set_memory stock sample blank) = Inr sample
   \<and> number sample = Num 1 \<and> get_special (number sample) = Inr 16
   \<and> length (mmap (snd (set_memory stock sample blank))) = 2048
   \<and> mmap (snd (set_memory stock sample blank)) ! 15 = mmap blank ! 15
   \<and> mmap (snd (set_memory stock sample blank)) ! 32 = mmap blank ! 32"
proof -
  have ok: "set_memory stock sample blank = (Inr sample, snd (set_memory stock sample blank))"
    using sample_succeeds by (simp add: prod_eq_iff)
  have sel: "(\<exists>n. number sample = Num n \<and> 1 \<le> n \<and> n \<le> 20) \<or> number sample = Num (- 2)
           \<or> number sample = Num (- 1) \<or> number sample = Name ''EMG''
           \<or> number sample = Name ''RLY''"
    by (simp add: sample_fields)
  have s: "get_special (number sample) = Inr 16" by (simp add: sample_fields channel_1)
  obtain off where w: "get_special (number sample) = Inr off"
    "length (mmap (snd (set_memory stock sample blank))) = length (mmap blank)"
    "\<forall>i. i < off \<or> off + 16 \<le> i \<longrightarrow> mmap (snd (set_memory stock sample blank)) ! i = mmap blank ! i"
    using set_memory_changes_only_its_channel [OF sel ok] by blast
  have off: "off = 16" using w(1) s by simp
  have l: "length (mmap (snd (set_memory stock sample blank))) = 2048"
    using w(2) by (simp add: blank_def)
  have n15: "mmap (snd (set_memory stock sample blank)) ! 15 = mmap blank ! 15"
    using w(3) off by simp
  have n32: "mmap (snd (set_memory stock sample blank)) ! 32 = mmap blank ! 32"
    using w(3) off by simp
  have n1: "number sample = Num 1" by (simp add: sample_fields)
  show ?thesis using sample_succeeds n1 s l n15 n32 by blast
qed





subsection \<open>Decoding the offset\<close>



text \<open>
  Claim C10. \<open>get_memory\<close> returns the radio as it received it, image included, whatever
  the selector and whether or not it fails.
\<close>

theorem get_memory_read_only: "snd (get_memory cc num r) = r \<and> mmap (snd (get_memory cc num r)) = mmap r"
  by (simp add: get_memory_def Let_def split: sum.splits selector.splits option.splits)

section \<open>Properties of the settings\<close>






text \<open>
  Claim C7. A stored volume of 0xFF is presented as 7 and a stored 3 as 3 (any value up
  to 7 is presented as it is); reading changes nothing. A changed volume setting is
  written to the volume byte as the caller gave it: 7 is stored as 0x07, and 0xFF does not
  come back.
\<close>

theorem volume_sentinel:
  "(settings_volume r = 0xFF \<longrightarrow> fst (get_settings_volume r) = 7)
   \<and> (settings_volume r = 3 \<longrightarrow> fst (get_settings_volume r) = 3)
   \<and> (settings_volume r \<le> 7 \<longrightarrow> fst (get_settings_volume r) = settings_volume r)
   \<and> snd (get_settings_volume r) = r
   \<and> (0 \<le> v \<and> v \<le> 255 \<and> 0x016B < length (mmap r) \<longrightarrow>
        set_settings [RadioSetting ''volume'' True v None] r
          = (Inr (), r\<lparr>mmap := (mmap r)[0x016B := of_int v]\<rparr>)
        \<and> settings_volume (snd (set_settings [RadioSetting ''volume'' True v None] r)) = nat v)"
proof -
  have f: "map_of settings_fields ''volume'' = Some (U8 0x016B)"
    by (simp add: settings_fields_def)
  have u: "unat (of_int v :: byte) = nat v" if "0 \<le> v" "v \<le> 255"
  proof -
    have "unat (of_int v :: byte) = nat (v mod 256)"
      by (simp add: unat_eq_nat_uint uint_word_of_int take_bit_eq_mod)
    then show ?thesis using that by simp
  qed
  show ?thesis
    using u by (auto simp: get_settings_volume_def Let_def f set_field_def settings_volume_def)
qed

theorem volume_sentinel_witness:
  "fst (get_settings_volume (blank\<lparr>mmap := (mmap blank)[0x016B := 0xFF]\<rparr>)) = 7
   \<and> fst (get_settings_volume (blank\<lparr>mmap := (mmap blank)[0x016B := 0x03]\<rparr>)) = 3
   \<and> set_settings [RadioSetting ''volume'' True 7 None]
         (blank\<lparr>mmap := (mmap blank)[0x016B := 0xFF]\<rparr>)
       = (Inr (), blank\<lparr>mmap := (mmap blank)[0x016B := 0x07]\<rparr>)"
proof -
  let ?a = "blank\<lparr>mmap := (mmap blank)[0x016B := 0xFF]\<rparr>"
  let ?b = "blank\<lparr>mmap := (mmap blank)[0x016B := 0x03]\<rparr>"
  have va: "settings_volume ?a = 0xFF" by (simp add: settings_volume_def blank_def)
  have vb: "settings_volume ?b = 3" by (simp add: settings_volume_def blank_def)
  have l: "0x016B < length (mmap ?a)" by (simp add: blank_def)
  show ?thesis
    using volume_sentinel [of ?a 7] volume_sentinel [of ?b 0] va vb l
    by simp
qed

end
